theory Spec2Isabelle
  imports Main
begin

section \<open>Shared vocabulary\<close>

text \<open>
  The two source files, \<^verbatim>\<open>identity/manager.go\<close> and
  \<^verbatim>\<open>selfservice/flow/login/request.go\<close>, share a few types of the Go
  standard library and of the \<^verbatim>\<open>identity\<close> package.

  \<^item> A \<^verbatim>\<open>time.Time\<close> is an instant, counted in nanoseconds; \<^verbatim>\<open>Before\<close> and
    \<^verbatim>\<open>After\<close> are \<open><\<close> and \<open>>\<close> on it.
  \<^item> A \<^verbatim>\<open>time.Duration\<close> is a count of nanoseconds held in an \<^verbatim>\<open>int64\<close>.
  \<^item> A Go pointer is either nil or points at a value.
  \<^item> A Go slice or map is either nil or holds a (possibly empty) collection: the
    model writes \<open>None\<close> for nil and \<open>Some\<close> for a collection that was made.
\<close>

type_synonym UUID = string
type_synonym CredentialsType = string
type_synonym Time = int
type_synonym Duration = int

datatype 'a ptr = NilPtr | Ptr 'a

text \<open>
  Values of Go's \<^verbatim>\<open>error\<close> interface that the code under study builds or hands
  on. \<open>ErrBadRequest\<close> and \<open>ErrForbidden\<close> are the two herodot error classes the
  source uses, each with its reason text. \<open>JsonSchemaValidationError\<close> is an
  error whose cause is a \<^verbatim>\<open>*jsonschema.ValidationError\<close>, with its message.
  \<open>OtherError\<close> is any error of a collaborator (store, validator, code
  generator) that the code returns as it got it.
\<close>

datatype error =
    ErrBadRequest string
  | ErrForbidden string
  | RequestExpiredError Duration
  | JsonSchemaValidationError string
  | OtherError string

datatype panic = NilPointerDereference

section \<open>Identity manager\<close>

text \<open>
  Modelled from the spec: the structs \<^verbatim>\<open>VerifiableAddress\<close> and \<^verbatim>\<open>Identity\<close>
  are declared in files of the \<^verbatim>\<open>identity\<close> package that are not at hand. The
  fields are those of the spec's data model; the source names the collection of
  addresses \<^verbatim>\<open>Addresses\<close>. The type of \<^verbatim>\<open>Credentials\<close> is left open (\<open>'c\<close>):
  the source only hands it to \<^verbatim>\<open>CredentialsEqual\<close>. \<^verbatim>\<open>Addresses\<close> is a slice,
  nil or made.
\<close>

type_synonym Traits = string

record VerifiableAddress =
  Value :: string
  Via :: string
  Verified :: bool
  Code :: string
  ExpiresAt :: Time

record 'c Identity =
  ID :: UUID
  Traits :: Traits
  Credentials :: 'c
  Addresses :: "VerifiableAddress list option"

record managerOptions =
  ExposeValidationErrors :: bool
  AllowWriteProtectedTraits :: bool

type_synonym ManagerOption = "managerOptions \<Rightarrow> managerOptions"

definition ManagerExposeValidationErrors :: ManagerOption where
  "ManagerExposeValidationErrors options = options\<lparr>ExposeValidationErrors := True\<rparr>"

definition ManagerAllowWriteProtectedTraits :: ManagerOption where
  "ManagerAllowWriteProtectedTraits options = options\<lparr>AllowWriteProtectedTraits := True\<rparr>"

text \<open>\<^verbatim>\<open>var o managerOptions\<close> is the zero value: both flags false.\<close>

definition newManagerOptions :: "ManagerOption list \<Rightarrow> managerOptions" where
  "newManagerOptions opts =
     fold (\<lambda>f opt. f opt) opts \<lparr>ExposeValidationErrors = False, AllowWriteProtectedTraits = False\<rparr>"

text \<open>
  A \<^verbatim>\<open>context.Context\<close>, as far as the claims look at it: not done, or done with
  one of the two errors \<^verbatim>\<open>ctx.Err()\<close> can report.
\<close>

datatype "context" = NotDone | Canceled | DeadlineExceeded

text \<open>
  What the validator reports when it rejects an identity: an error whose cause
  is a \<^verbatim>\<open>*jsonschema.ValidationError\<close>, or any other error. Each carries the text
  of \<^verbatim>\<open>err.Error()\<close>.
\<close>

datatype validator_error = SchemaViolation string | ValidatorFailure string

fun is_jsonschema_ValidationError :: "validator_error \<Rightarrow> bool" where
  "is_jsonschema_ValidationError (SchemaViolation msg) = True"
| "is_jsonschema_ValidationError (ValidatorFailure msg) = False"

text \<open>
  \<open>Error\<close> is the text of the error (\<^verbatim>\<open>err.Error()\<close>); \<open>returned\<close> is the same
  error as the value of type \<^verbatim>\<open>error\<close> that \<^verbatim>\<open>return err\<close> hands to the caller.
\<close>

fun Error :: "validator_error \<Rightarrow> string" where
  "Error (SchemaViolation msg) = msg"
| "Error (ValidatorFailure msg) = msg"

fun returned :: "validator_error \<Rightarrow> error" where
  "returned (SchemaViolation msg) = JsonSchemaValidationError msg"
| "returned (ValidatorFailure msg) = OtherError msg"

text \<open>
  The collaborators of the Manager are interfaces; the model takes them as
  functions. The store (\<^verbatim>\<open>m.r.IdentityPool().(PrivilegedPool)\<close>) has a state of
  its own, of type \<open>'s\<close>; each of its methods takes the context, its argument
  and the state, and returns its result and the new state. An error of the store
  is opaque to the Manager and comes back as \<open>OtherError\<close>. The store is given
  the value its pointer argument holds at the call.

  The validator (\<^verbatim>\<open>m.r.IdentityValidator().Validate\<close>) receives a pointer to the
  identity, so it may change the identity it checks: it returns its verdict
  together with the identity as it leaves it.

  \<open>SelfServiceVerificationLinkLifespan\<close> is the one setting read through \<^verbatim>\<open>m.c\<close>.

  \<open>CredentialsEqual\<close> is a function of the \<^verbatim>\<open>identity\<close> package whose source is not
  at hand; it is a parameter as well, so every result below holds for any
  equality on credentials.
\<close>

record ('s, 'c) Manager =
  CreateIdentity :: "context \<Rightarrow> 'c Identity \<Rightarrow> 's \<Rightarrow> string option \<times> 's"
  UpdateIdentity :: "context \<Rightarrow> 'c Identity \<Rightarrow> 's \<Rightarrow> string option \<times> 's"
  GetIdentityConfidential :: "context \<Rightarrow> UUID \<Rightarrow> 's \<Rightarrow> (string + 'c Identity) \<times> 's"
  UpdateVerifiableAddress :: "context \<Rightarrow> VerifiableAddress \<Rightarrow> 's \<Rightarrow> string option \<times> 's"
  Validate :: "'c Identity \<Rightarrow> validator_error option \<times> 'c Identity"
  SelfServiceVerificationLinkLifespan :: Duration
  CredentialsEqual :: "'c \<Rightarrow> 'c \<Rightarrow> bool"

text \<open>
  The calls a Manager method makes to its collaborators, in order, with their
  arguments. The world a method runs in is the state of the store and the calls
  made so far.
\<close>

datatype 'c call =
    GetIdentityConfidentialCall "context" UUID
  | ValidateCall "'c Identity"
  | CreateIdentityCall "context" "'c Identity"
  | UpdateIdentityCall "context" "'c Identity"
  | UpdateVerifiableAddressCall "context" VerifiableAddress

record ('s, 'c) world =
  pool :: 's
  calls :: "'c call list"

text \<open>
  \<^verbatim>\<open>ErrProtectedFieldModified\<close>: \<^verbatim>\<open>herodot.ErrForbidden\<close> with a fixed reason.
\<close>

definition ErrProtectedFieldModified :: error where
  "ErrProtectedFieldModified = ErrForbidden
     ''A field was modified that updates one or more credentials-related settings. This action was blocked because an unprivileged method was used to execute the update. This is either a configuration issue or a bug and should be reported to the system administrator.''"

text \<open>
  \<^verbatim>\<open>validate\<close>: the result is the error returned and the identity as the
  validator left it. \<^verbatim>\<open>WithReasonf("%s", err)\<close> puts the text of the error into
  the reason.
\<close>

definition validate ::
  "('s, 'c) Manager \<Rightarrow> 'c Identity \<Rightarrow> managerOptions \<Rightarrow> ('s, 'c) world
     \<Rightarrow> (error option \<times> 'c Identity) \<times> ('s, 'c) world" where
  "validate m i opt w =
     (let (res, i') = Validate m i;
          w' = w\<lparr>calls := calls w @ [ValidateCall i]\<rparr>
      in case res of
           Some err \<Rightarrow>
             if is_jsonschema_ValidationError err \<and> \<not> ExposeValidationErrors opt
             then ((Some (ErrBadRequest (Error err)), i'), w')
             else ((Some (returned err), i'), w')
         | None \<Rightarrow> ((None, i'), w'))"

definition Create ::
  "('s, 'c) Manager \<Rightarrow> context \<Rightarrow> 'c Identity \<Rightarrow> ManagerOption list \<Rightarrow> ('s, 'c) world
     \<Rightarrow> (error option \<times> 'c Identity) \<times> ('s, 'c) world" where
  "Create m ctx i opts w =
     (let opt = newManagerOptions opts;
          ((err, i'), w1) = validate m i opt w
      in case err of
           Some e \<Rightarrow> ((Some e, i'), w1)
         | None \<Rightarrow>
             (let (res, s') = CreateIdentity m ctx i' (pool w1)
              in ((map_option OtherError res, i'),
                  w1\<lparr>pool := s', calls := calls w1 @ [CreateIdentityCall ctx i']\<rparr>)))"

definition Update ::
  "('s, 'c) Manager \<Rightarrow> context \<Rightarrow> 'c Identity \<Rightarrow> ManagerOption list \<Rightarrow> ('s, 'c) world
     \<Rightarrow> (error option \<times> 'c Identity) \<times> ('s, 'c) world" where
  "Update m ctx i opts w =
     (let opt = newManagerOptions opts;
          ((err, i'), w1) = validate m i opt w
      in case err of
           Some e \<Rightarrow> ((Some e, i'), w1)
         | None \<Rightarrow>
             (let (res, s') = UpdateIdentity m ctx i' (pool w1)
              in ((map_option OtherError res, i'),
                  w1\<lparr>pool := s', calls := calls w1 @ [UpdateIdentityCall ctx i']\<rparr>)))"

text \<open>\<^verbatim>\<open>len\<close> of a slice; a nil slice has length 0.\<close>

definition len :: "'a list option \<Rightarrow> nat" where
  "len xs = (case xs of None \<Rightarrow> 0 | Some ys \<Rightarrow> length ys)"

text \<open>
  The second test of the guard of \<^verbatim>\<open>UpdateTraits\<close>:
  \<^verbatim>\<open>!reflect.DeepEqual(original.Addresses, identity.Addresses) &&
  len(original.Addresses)+len(identity.Addresses) != 0\<close>.
  \<^verbatim>\<open>reflect.DeepEqual\<close> on two slices of structs is equality of the modelled
  values: both nil, or both made with equal elements in the same order.
\<close>

definition addresses_modified ::
  "VerifiableAddress list option \<Rightarrow> VerifiableAddress list option \<Rightarrow> bool" where
  "addresses_modified original_addresses identity_addresses =
     (original_addresses \<noteq> identity_addresses \<and>
      len original_addresses + len identity_addresses \<noteq> 0)"

text \<open>
  \<^verbatim>\<open>UpdateTraits\<close>. The result is the error returned, the working identity (the
  value behind the pointer the store returned, absent when the read failed) and
  the world. \<^verbatim>\<open>deepcopy.Copy\<close> gives a value equal to the one read, independent
  of it; \<^verbatim>\<open>*identity = *original\<close> puts it back.
\<close>

definition UpdateTraits ::
  "('s, 'c) Manager \<Rightarrow> context \<Rightarrow> UUID \<Rightarrow> Traits \<Rightarrow> ManagerOption list \<Rightarrow> ('s, 'c) world
     \<Rightarrow> (error option \<times> 'c Identity option) \<times> ('s, 'c) world" where
  "UpdateTraits m ctx uid traits opts w =
     (let opt = newManagerOptions opts;
          (res, s1) = GetIdentityConfidential m ctx uid (pool w);
          w1 = w\<lparr>pool := s1, calls := calls w @ [GetIdentityConfidentialCall ctx uid]\<rparr>
      in case res of
           Inl err \<Rightarrow> ((Some (OtherError err), None), w1)
         | Inr identity \<Rightarrow>
             (let original = identity;
                  ((err, identity'), w2) = validate m (identity\<lparr>Traits := traits\<rparr>) opt w1
              in case err of
                   Some e \<Rightarrow> ((Some e, Some identity'), w2)
                 | None \<Rightarrow>
                     if \<not> AllowWriteProtectedTraits opt \<and>
                        \<not> CredentialsEqual m (Credentials identity') (Credentials original)
                     then ((Some ErrProtectedFieldModified, Some original), w2)
                     else if \<not> AllowWriteProtectedTraits opt \<and>
                        addresses_modified (Addresses original) (Addresses identity')
                     then ((Some ErrProtectedFieldModified, Some original), w2)
                     else
                       (let (res', s3) = UpdateIdentity m ctx identity' (pool w2)
                        in ((map_option OtherError res', Some identity'),
                            w2\<lparr>pool := s3, calls := calls w2 @ [UpdateIdentityCall ctx identity']\<rparr>))))"

text \<open>
  \<^verbatim>\<open>RefreshVerifyAddress\<close>. \<open>code_result\<close> is what \<^verbatim>\<open>NewVerifyCode()\<close> returned (a
  function of the \<^verbatim>\<open>identity\<close> package whose source is not at hand: a code or an
  error) and \<open>now\<close> is what \<^verbatim>\<open>time.Now().UTC()\<close> returned. A clock reading plus
  an \<^verbatim>\<open>int64\<close> Duration stays inside the range of \<^verbatim>\<open>time.Time\<close>, so \<^verbatim>\<open>Add\<close> is
  addition. The result is the error returned, the address as the call leaves it,
  and the world.
\<close>

definition RefreshVerifyAddress ::
  "('s, 'c) Manager \<Rightarrow> context \<Rightarrow> VerifiableAddress \<Rightarrow> string + string \<Rightarrow> Time \<Rightarrow> ('s, 'c) world
     \<Rightarrow> (error option \<times> VerifiableAddress) \<times> ('s, 'c) world" where
  "RefreshVerifyAddress m ctx address code_result now w =
     (case code_result of
        Inl err \<Rightarrow> ((Some (OtherError err), address), w)
      | Inr code \<Rightarrow>
          (let address' = address\<lparr>Code := code,
                                   ExpiresAt := now + SelfServiceVerificationLinkLifespan m\<rparr>;
               (res, s') = UpdateVerifiableAddress m ctx address' (pool w)
           in ((map_option OtherError res, address'),
               w\<lparr>pool := s', calls := calls w @ [UpdateVerifiableAddressCall ctx address']\<rparr>)))"

section \<open>Login flow request\<close>

text \<open>
  Modelled from the spec: the struct \<^verbatim>\<open>RequestMethod\<close> is declared in a file of
  the \<^verbatim>\<open>login\<close> package that is not at hand. The spec describes it as the
  per-method state of a flow, each element "tagged with its credential-type";
  the source reads its field \<^verbatim>\<open>Method\<close>. The rest of the struct is one opaque
  payload.
\<close>

record RequestMethod =
  Method :: CredentialsType
  Config :: string

record Request =
  ID :: UUID
  ExpiresAt :: Time
  IssuedAt :: Time
  RequestURL :: string
  Active :: CredentialsType
  Methods :: "(CredentialsType \<rightharpoonup> RequestMethod ptr) option"
  MethodsRaw :: "RequestMethod list option"
  CreatedAt :: Time
  UpdatedAt :: Time
  CSRFToken :: string
  Forced :: bool

text \<open>
  \<^verbatim>\<open>for _, m := range r.Methods\<close> visits every entry of the map once, in an order
  the Go runtime chooses. The order is an input of the model: \<open>ks\<close> lists the
  keys as this run visits them, and \<open>range_order\<close> says that \<open>ks\<close> is such an
  order for the map. Ranging over a nil map visits nothing.
\<close>

definition range_order :: "('k \<rightharpoonup> 'v) option \<Rightarrow> 'k list \<Rightarrow> bool" where
  "range_order mo ks =
     (case mo of None \<Rightarrow> True | Some m \<Rightarrow> distinct ks \<and> set ks = dom m)"

definition range_values :: "('k \<rightharpoonup> 'v) option \<Rightarrow> 'k list \<Rightarrow> 'v list" where
  "range_values mo ks = (case mo of None \<Rightarrow> [] | Some m \<Rightarrow> List.map_filter m ks)"

text \<open>
  The body of the loop of \<^verbatim>\<open>BeforeSave\<close>,
  \<^verbatim>\<open>r.MethodsRaw = append(r.MethodsRaw, *m)\<close>: dereferencing a nil entry panics.
\<close>

fun BeforeSave_loop :: "RequestMethod ptr list \<Rightarrow> RequestMethod list \<Rightarrow> panic + RequestMethod list" where
  "BeforeSave_loop [] raw = Inr raw"
| "BeforeSave_loop (NilPtr # ms) raw = Inl NilPointerDereference"
| "BeforeSave_loop (Ptr m # ms) raw = BeforeSave_loop ms (raw @ [m])"

text \<open>
  \<^verbatim>\<open>BeforeSave\<close>: \<^verbatim>\<open>make([]RequestMethod, 0, len(r.Methods))\<close> is an empty slice
  that is not nil, also for a nil map. The error result of the source is always
  nil; \<open>Inr\<close> is the normal return. The connection argument is not used.
\<close>

definition BeforeSave :: "CredentialsType list \<Rightarrow> Request \<Rightarrow> panic + Request" where
  "BeforeSave ks r =
     (case BeforeSave_loop (range_values (Methods r) ks) [] of
        Inl p \<Rightarrow> Inl p
      | Inr raw \<Rightarrow> Inr (r\<lparr>MethodsRaw := Some raw, Methods := None\<rparr>))"

text \<open>
  \<^verbatim>\<open>BeforeSave\<close> again, this time keeping the request it works on, statement by
  statement, so that the request is known also when the run ends in a panic:
  \<open>MethodsRaw\<close> is assigned the made slice first, each visited entry is
  dereferenced and appended, and \<open>Methods\<close> is set to nil last. The result is
  the panic, if any, and the request as the run leaves it.
\<close>

definition append_raw :: "RequestMethod list option \<Rightarrow> RequestMethod \<Rightarrow> RequestMethod list option" where
  "append_raw raw m = Some ((case raw of None \<Rightarrow> [] | Some xs \<Rightarrow> xs) @ [m])"

fun BeforeSave_receiver_loop :: "RequestMethod ptr list \<Rightarrow> Request \<Rightarrow> panic option \<times> Request" where
  "BeforeSave_receiver_loop [] r = (None, r)"
| "BeforeSave_receiver_loop (NilPtr # ms) r = (Some NilPointerDereference, r)"
| "BeforeSave_receiver_loop (Ptr m # ms) r =
     BeforeSave_receiver_loop ms (r\<lparr>MethodsRaw := append_raw (MethodsRaw r) m\<rparr>)"

definition BeforeSave_receiver :: "CredentialsType list \<Rightarrow> Request \<Rightarrow> panic option \<times> Request" where
  "BeforeSave_receiver ks r =
     (case BeforeSave_receiver_loop (range_values (Methods r) ks) (r\<lparr>MethodsRaw := Some []\<rparr>) of
        (Some p, r') \<Rightarrow> (Some p, r')
      | (None, r') \<Rightarrow> (None, r'\<lparr>Methods := None\<rparr>))"

text \<open>
  The loop of \<^verbatim>\<open>AfterFind\<close>: \<^verbatim>\<open>m := r.MethodsRaw[key]; r.Methods[m.Method] = &m\<close>,
  over the indices of the slice in order. Ranging over a nil slice visits nothing.
\<close>

fun AfterFind_loop ::
  "RequestMethod list \<Rightarrow> (CredentialsType \<rightharpoonup> RequestMethod ptr) \<Rightarrow> (CredentialsType \<rightharpoonup> RequestMethod ptr)" where
  "AfterFind_loop [] ms = ms"
| "AfterFind_loop (m # raw) ms = AfterFind_loop raw (ms(Method m \<mapsto> Ptr m))"

definition AfterFind :: "Request \<Rightarrow> Request" where
  "AfterFind r =
     r\<lparr>Methods := Some (AfterFind_loop (case MethodsRaw r of None \<Rightarrow> [] | Some raw \<Rightarrow> raw) Map.empty),
       MethodsRaw := None\<rparr>"

definition AfterCreate :: "Request \<Rightarrow> Request" where
  "AfterCreate r = AfterFind r"

definition AfterUpdate :: "Request \<Rightarrow> Request" where
  "AfterUpdate r = AfterFind r"

text \<open>
  A request as the storage layer handles it: \<^verbatim>\<open>BeforeSave\<close> before the write,
  \<^verbatim>\<open>AfterFind\<close> after the read. The storage layer is taken to return the raw
  collection as it was given, in the same order.
\<close>

definition save_then_find :: "CredentialsType list \<Rightarrow> Request \<Rightarrow> panic + Request" where
  "save_then_find ks r = (case BeforeSave ks r of Inl p \<Rightarrow> Inl p | Inr r' \<Rightarrow> Inr (AfterFind r'))"

text \<open>
  \<^verbatim>\<open>Time.Sub\<close> returns the difference of two instants as a Duration, and the
  largest (smallest) Duration when the difference does not fit an \<^verbatim>\<open>int64\<close>.
  \<^verbatim>\<open>time.Since(t)\<close> is \<^verbatim>\<open>time.Now().Sub(t)\<close>.
\<close>

definition maxDuration :: Duration where
  "maxDuration = 2 ^ 63 - 1"

definition minDuration :: Duration where
  "minDuration = - (2 ^ 63)"

definition Sub :: "Time \<Rightarrow> Time \<Rightarrow> Duration" where
  "Sub t u =
     (let d = t - u in
      if minDuration \<le> d \<and> d \<le> maxDuration then d
      else if t < u then minDuration
      else maxDuration)"

text \<open>
  \<^verbatim>\<open>Valid\<close> reads the clock up to three times: \<open>now1\<close> for the expiry check,
  \<open>now2\<close> inside \<^verbatim>\<open>time.Since\<close>, \<open>now3\<close> for the issuance check. The three
  readings are inputs of the model. \<^verbatim>\<open>errors.WithStack\<close> only attaches a stack
  trace and is left out.

  Modelled from the spec: \<^verbatim>\<open>newRequestExpiredError\<close> is declared in a file of the
  \<^verbatim>\<open>login\<close> package that is not at hand; by the spec it is the flow-expired error
  that carries the duration it is given, here \<open>RequestExpiredError\<close>.
\<close>

definition Valid :: "Time \<Rightarrow> Time \<Rightarrow> Time \<Rightarrow> Request \<Rightarrow> error option" where
  "Valid now1 now2 now3 r =
     (if ExpiresAt r < now1 then Some (RequestExpiredError (Sub now2 (ExpiresAt r)))
      else if IssuedAt r > now3 then Some (ErrBadRequest ''The login request was issued in the future.'')
      else None)"

section \<open>Concrete inputs\<close>

text \<open>
  A request that has expired and whose issuance time lies after its expiry.
\<close>

definition expired_request_issued_in_future :: Request where
  "expired_request_issued_in_future =
     \<lparr>ID = ''r1'', ExpiresAt = 1, IssuedAt = 10, RequestURL = ''http://kratos/login'',
      Active = '''', Methods = Some Map.empty, MethodsRaw = None, CreatedAt = 0, UpdatedAt = 0,
      CSRFToken = ''t'', Forced = False\<rparr>"

text \<open>
  A store kept in memory: the identities by ID (the first pair of an ID is the
  current one) and the addresses written so far. It refuses every call made
  with a context that is done, and leaves its state as it is when it refuses.
\<close>

type_synonym example_credentials = "(CredentialsType \<times> string list) list"

type_synonym example_pool = "(UUID \<times> example_credentials Identity) list \<times> VerifiableAddress list"

definition example_GetIdentityConfidential ::
  "context \<Rightarrow> UUID \<Rightarrow> example_pool \<Rightarrow> (string + example_credentials Identity) \<times> example_pool" where
  "example_GetIdentityConfidential ctx uid s =
     (if ctx \<noteq> NotDone then (Inl ''context done'', s)
      else case map_of (fst s) uid of
             None \<Rightarrow> (Inl ''not found'', s)
           | Some i \<Rightarrow> (Inr i, s))"

definition example_CreateIdentity ::
  "context \<Rightarrow> example_credentials Identity \<Rightarrow> example_pool \<Rightarrow> string option \<times> example_pool" where
  "example_CreateIdentity ctx i s =
     (if ctx \<noteq> NotDone then (Some ''context done'', s)
      else if map_of (fst s) (Identity.ID i) \<noteq> None then (Some ''duplicate identity'', s)
      else (None, ((Identity.ID i, i) # fst s, snd s)))"

definition example_UpdateIdentity ::
  "context \<Rightarrow> example_credentials Identity \<Rightarrow> example_pool \<Rightarrow> string option \<times> example_pool" where
  "example_UpdateIdentity ctx i s =
     (if ctx \<noteq> NotDone then (Some ''context done'', s)
      else if map_of (fst s) (Identity.ID i) = None then (Some ''not found'', s)
      else (None, ((Identity.ID i, i) # fst s, snd s)))"

definition example_UpdateVerifiableAddress ::
  "context \<Rightarrow> VerifiableAddress \<Rightarrow> example_pool \<Rightarrow> string option \<times> example_pool" where
  "example_UpdateVerifiableAddress ctx a s =
     (if ctx \<noteq> NotDone then (Some ''context done'', s)
      else (None, (fst s, a # snd s)))"

text \<open>
  Three validators. The first only checks that there are traits. The second
  also derives the password identifier from the traits and makes the address
  collection, as a schema with credential and verification extensions does. The
  third accepts everything and sets the address collection to a given value.
\<close>

definition checking_validator ::
  "example_credentials Identity \<Rightarrow> validator_error option \<times> example_credentials Identity" where
  "checking_validator i =
     (if Traits i = '''' then (Some (SchemaViolation ''traits: email is required''), i)
      else (None, i))"

definition deriving_validator ::
  "example_credentials Identity \<Rightarrow> validator_error option \<times> example_credentials Identity" where
  "deriving_validator i =
     (if Traits i = '''' then (Some (SchemaViolation ''traits: email is required''), i)
      else (None, i\<lparr>Credentials := [(''password'', [Traits i])],
                     Addresses := Some (case Addresses i of None \<Rightarrow> [] | Some as \<Rightarrow> as)\<rparr>))"

definition address_setting_validator ::
  "VerifiableAddress list option \<Rightarrow> example_credentials Identity
     \<Rightarrow> validator_error option \<times> example_credentials Identity" where
  "address_setting_validator as i = (None, i\<lparr>Addresses := as\<rparr>)"

text \<open>
  A Manager over that store, with a lifespan of one hour and credentials
  compared by equality; an identity, an address, and a world that holds them.
\<close>

definition example_manager ::
  "(example_credentials Identity \<Rightarrow> validator_error option \<times> example_credentials Identity)
     \<Rightarrow> (example_pool, example_credentials) Manager" where
  "example_manager v =
     \<lparr>CreateIdentity = example_CreateIdentity,
      UpdateIdentity = example_UpdateIdentity,
      GetIdentityConfidential = example_GetIdentityConfidential,
      UpdateVerifiableAddress = example_UpdateVerifiableAddress,
      Validate = v,
      SelfServiceVerificationLinkLifespan = 3600000000000,
      CredentialsEqual = (\<lambda>a b. a = b)\<rparr>"

definition alice :: "example_credentials Identity" where
  "alice =
     \<lparr>Identity.ID = ''alice-id'', Traits = ''alice@example.org'',
      Credentials = [(''password'', [''alice@example.org''])], Addresses = None\<rparr>"

definition alice_address :: VerifiableAddress where
  "alice_address =
     \<lparr>Value = ''alice@example.org'', Via = ''email'', Verified = False, Code = ''old code'',
      VerifiableAddress.ExpiresAt = 50\<rparr>"

definition example_world :: "(example_pool, example_credentials) world" where
  "example_world = \<lparr>pool = ([(''alice-id'', alice)], []), calls = []\<rparr>"

definition bob_traits :: Traits where
  "bob_traits = ''bob@example.org''"

definition alice_as_bob :: "example_credentials Identity" where
  "alice_as_bob =
     \<lparr>Identity.ID = ''alice-id'', Traits = ''bob@example.org'',
      Credentials = [(''password'', [''bob@example.org''])], Addresses = Some []\<rparr>"

definition alice_without_traits :: "example_credentials Identity" where
  "alice_without_traits =
     \<lparr>Identity.ID = ''alice-id'', Traits = '''',
      Credentials = [(''password'', [''alice@example.org''])], Addresses = None\<rparr>"

text \<open>
  \<open>alice_address\<close> after a refresh at time 100 with the code \<open>new code\<close>.
\<close>

definition refreshed_address :: VerifiableAddress where
  "refreshed_address =
     \<lparr>Value = ''alice@example.org'', Via = ''email'', Verified = False, Code = ''new code'',
      VerifiableAddress.ExpiresAt = 3600000000100\<rparr>"

text \<open>Method states, and requests built around a \<open>Methods\<close> mapping.\<close>

definition password_method :: RequestMethod where
  "password_method = \<lparr>Method = ''password'', Config = ''password form''\<rparr>"

definition oidc_method :: RequestMethod where
  "oidc_method = \<lparr>Method = ''oidc'', Config = ''oidc form''\<rparr>"

definition request_with :: "(CredentialsType \<rightharpoonup> RequestMethod ptr) option \<Rightarrow> Request" where
  "request_with ms =
     \<lparr>ID = ''r2'', ExpiresAt = 3600, IssuedAt = 0, RequestURL = ''http://kratos/login'',
      Active = '''', Methods = ms, MethodsRaw = None, CreatedAt = 0, UpdatedAt = 0,
      CSRFToken = ''t'', Forced = False\<rparr>"

text \<open>Two entries, each filed under its own \<open>Method\<close>.\<close>

definition two_methods :: "CredentialsType \<rightharpoonup> RequestMethod ptr" where
  "two_methods = [''password'' \<mapsto> Ptr password_method, ''oidc'' \<mapsto> Ptr oidc_method]"

text \<open>One entry filed under a key that is not its \<open>Method\<close>, and where it ends up.\<close>

definition misfiled_method :: "CredentialsType \<rightharpoonup> RequestMethod ptr" where
  "misfiled_method = [''password'' \<mapsto> Ptr oidc_method]"

definition refiled_method :: "CredentialsType \<rightharpoonup> RequestMethod ptr" where
  "refiled_method = [''oidc'' \<mapsto> Ptr oidc_method]"

text \<open>One entry that is a nil pointer.\<close>

definition nil_method :: "CredentialsType \<rightharpoonup> RequestMethod ptr" where
  "nil_method = [''password'' \<mapsto> NilPtr]"

text \<open>A raw collection with two elements tagged \<open>password\<close>.\<close>

definition raw_with_duplicate :: "RequestMethod list" where
  "raw_with_duplicate =
     [password_method, oidc_method, \<lparr>Method = ''password'', Config = ''second password form''\<rparr>]"

section \<open>Properties of the login flow request\<close>

subsection \<open>Validity\<close>

text \<open>
  Claim C7, as the code has it. \<^verbatim>\<open>Valid\<close> tests expiry first. When \<open>ExpiresAt\<close>
  is before the clock reading of the first test, the result is the flow-expired
  error carrying \<^verbatim>\<open>time.Since(r.ExpiresAt)\<close>, which is the elapsed time at the
  second clock reading whenever that fits a Duration. Only when the request has
  not expired is issuance looked at: the result is the bad-request error when
  \<open>IssuedAt\<close> is after the clock reading of that test, and no error otherwise.
\<close>

theorem Valid_cases:
  "(ExpiresAt r < now1 \<longrightarrow>
      Valid now1 now2 now3 r = Some (RequestExpiredError (Sub now2 (ExpiresAt r))) \<and>
      (now2 - ExpiresAt r \<le> maxDuration \<and> now1 \<le> now2 \<longrightarrow>
         Sub now2 (ExpiresAt r) = now2 - ExpiresAt r)) \<and>
   (\<not> ExpiresAt r < now1 \<and> now3 < IssuedAt r \<longrightarrow>
      Valid now1 now2 now3 r = Some (ErrBadRequest ''The login request was issued in the future.'')) \<and>
   (\<not> ExpiresAt r < now1 \<and> \<not> now3 < IssuedAt r \<longrightarrow> Valid now1 now2 now3 r = None)"
  by (simp add: Valid_def Sub_def minDuration_def)

text \<open>
  The three cases at a concrete request (\<open>ExpiresAt = 1\<close>, \<open>IssuedAt = 10\<close>): read
  at times 5, 6, 7 it has expired, 5 nanoseconds before the second reading; read
  at time 1 it has not expired and was issued in the future; with the last
  reading at 10 it is valid.
\<close>

theorem Valid_cases_witness:
  "ExpiresAt expired_request_issued_in_future < 5 \<and>
   Valid 5 6 7 expired_request_issued_in_future = Some (RequestExpiredError 5) \<and>
   Valid 1 1 1 expired_request_issued_in_future
     = Some (ErrBadRequest ''The login request was issued in the future.'') \<and>
   Valid 1 1 10 expired_request_issued_in_future = None"
  using Valid_cases [of expired_request_issued_in_future 5 6 7]
    Valid_cases [of expired_request_issued_in_future 1 1 1]
    Valid_cases [of expired_request_issued_in_future 1 1 10]
  by (simp add: expired_request_issued_in_future_def maxDuration_def)

text \<open>
  Claim C7 as it is written says that a request issued in the future gets the
  bad-request error. At time 5 the request above was issued in the future, and
  \<^verbatim>\<open>Valid\<close> returns the flow-expired error instead.
\<close>

theorem Valid_issued_in_future_counterexample:
  "5 < IssuedAt expired_request_issued_in_future \<and>
   Valid 5 5 5 expired_request_issued_in_future = Some (RequestExpiredError 4) \<and>
   Valid 5 5 5 expired_request_issued_in_future
     \<noteq> Some (ErrBadRequest ''The login request was issued in the future.'')"
  by (simp add: Valid_def Sub_def minDuration_def maxDuration_def
      expired_request_issued_in_future_def)

text \<open>
  An expiry further back than a Duration can hold: the error carries the largest
  Duration, not the elapsed time.
\<close>

lemma Valid_elapsed_is_capped:
  "Valid 0 0 0 (expired_request_issued_in_future\<lparr>ExpiresAt := - (2 ^ 64)\<rparr>)
     = Some (RequestExpiredError (2 ^ 63 - 1))"
  by (simp add: Valid_def Sub_def minDuration_def maxDuration_def
      expired_request_issued_in_future_def)

subsection \<open>The storage hooks: the two loops\<close>

text \<open>
  \<^verbatim>\<open>BeforeSave\<close> returns exactly when no entry it visits is nil, and then the
  raw collection holds the values pointed at, in the order visited.
\<close>


lemma BeforeSave_loop_Ptr: "BeforeSave_loop (map Ptr vs) raw = Inr (raw @ vs)"
  by (induction vs arbitrary: raw) simp_all

lemma BeforeSave_loop_Inr:
  "BeforeSave_loop ps raw = Inr raw' \<Longrightarrow> \<exists>vs. ps = map Ptr vs \<and> raw' = raw @ vs"
proof (induction ps raw rule: BeforeSave_loop.induct)
  case (1 raw)
  then show ?case by simp
next
  case (2 ms raw)
  then show ?case by simp
next
  case (3 m ms raw)
  then obtain vs where "ms = map Ptr vs" "raw' = (raw @ [m]) @ vs" by auto
  then have "Ptr m # ms = map Ptr (m # vs) \<and> raw' = raw @ (m # vs)" by simp
  then show ?case by (intro exI [of _ "m # vs"])
qed

lemma BeforeSave_loop_Inl:
  "BeforeSave_loop ps raw = Inl NilPointerDereference \<longleftrightarrow> NilPtr \<in> set ps"
  by (induction ps raw rule: BeforeSave_loop.induct) auto

lemma find_snoc:
  "find P (xs @ [x]) = (case find P xs of None \<Rightarrow> (if P x then Some x else None) | Some y \<Rightarrow> Some y)"
  by (induction xs) simp_all

lemma find_append_rev:
  "find P (xs @ ys) = (case find P xs of None \<Rightarrow> find P ys | Some y \<Rightarrow> Some y)"
  by (induction xs) simp_all

lemma AfterFind_loop_lookup:
  "AfterFind_loop raw ms k =
     (case find (\<lambda>m. Method m = k) (rev raw) of None \<Rightarrow> ms k | Some m \<Rightarrow> Some (Ptr m))"
proof (induction raw arbitrary: ms)
  case Nil
  then show ?case by simp
next
  case (Cons a raw)
  show ?case
    by (simp add: Cons.IH find_snoc split: option.splits)
qed

lemma find_Some_set: "find P xs = Some x \<Longrightarrow> P x \<and> x \<in> set xs"
  by (induction xs) (auto split: if_splits)




lemma map_filter_dom:
  "set ks \<subseteq> dom m \<Longrightarrow> List.map_filter m ks = map (\<lambda>k. the (m k)) ks"
  by (induction ks) (auto simp: List.map_filter_simps)

lemma range_values_keyed:
  assumes "range_order (Some ms) ks"
      and "\<forall>k p. ms k = Some p \<longrightarrow> p \<noteq> NilPtr"
  shows "\<exists>vs. range_values (Some ms) ks = map Ptr vs \<and>
              length vs = length ks \<and> (\<forall>i<length ks. ms (ks ! i) = Some (Ptr (vs ! i)))"
proof -
  define d where "d = (\<lambda>k. case ms k of Some (Ptr v) \<Rightarrow> v)"
  from assms(1) have sub: "set ks \<subseteq> dom ms"
    by (simp add: range_order_def)
  have pt: "the (ms k) = Ptr (d k)" if "k \<in> set ks" for k
  proof -
    from that sub obtain p where p: "ms k = Some p" by auto
    with assms(2) have "p \<noteq> NilPtr" by blast
    then obtain v where "p = Ptr v" by (cases p) auto
    with p show ?thesis by (simp add: d_def)
  qed
  have "range_values (Some ms) ks = map Ptr (map d ks)"
    using sub pt by (simp add: range_values_def map_filter_dom)
  moreover have "\<forall>i<length ks. ms (ks ! i) = Some (Ptr (map d ks ! i))"
  proof (intro allI impI)
    fix i assume i: "i < length ks"
    then have k: "ks ! i \<in> set ks" by simp
    with sub obtain p where "ms (ks ! i) = Some p" by auto
    with pt [OF k] i show "ms (ks ! i) = Some (Ptr (map d ks ! i))" by simp
  qed
  ultimately show ?thesis by (intro exI [of _ "map d ks"]) simp
qed

lemma save_then_find_returns:
  assumes "Methods r = Some ms"
      and "range_order (Methods r) ks"
      and "\<forall>k p. ms k = Some p \<longrightarrow> p \<noteq> NilPtr"
  shows "\<exists>vs. save_then_find ks r =
                 Inr (r\<lparr>Methods := Some (AfterFind_loop vs Map.empty), MethodsRaw := None\<rparr>) \<and>
              length vs = length ks \<and> (\<forall>i<length ks. ms (ks ! i) = Some (Ptr (vs ! i)))"
proof -
  from range_values_keyed [of ms ks] assms obtain vs where
    vs: "range_values (Some ms) ks = map Ptr vs" "length vs = length ks"
        "\<forall>i<length ks. ms (ks ! i) = Some (Ptr (vs ! i))"
    by auto
  have "save_then_find ks r = Inr (r\<lparr>Methods := Some (AfterFind_loop vs Map.empty), MethodsRaw := None\<rparr>)"
    using assms(1) vs(1)
    by (simp add: save_then_find_def BeforeSave_def BeforeSave_loop_Ptr AfterFind_def)
  with vs show ?thesis by blast
qed

lemma save_then_find_round_trip:
  assumes ms: "Methods r = Some ms"
      and order: "range_order (Methods r) ks"
      and keyed: "\<forall>k p. ms k = Some p \<longrightarrow> (\<exists>v. p = Ptr v \<and> Method v = k)"
  shows "\<exists>r'. save_then_find ks r = Inr r' \<and> Methods r' = Methods r \<and> MethodsRaw r' = None"
proof -
  from keyed have nonnil: "\<forall>k p. ms k = Some p \<longrightarrow> p \<noteq> NilPtr" by auto
  from save_then_find_returns [OF ms order nonnil] obtain vs where
    ret: "save_then_find ks r = Inr (r\<lparr>Methods := Some (AfterFind_loop vs Map.empty), MethodsRaw := None\<rparr>)"
    and len: "length vs = length ks"
    and at: "\<forall>i<length ks. ms (ks ! i) = Some (Ptr (vs ! i))"
    by blast
  from order ms have dom: "set ks = dom ms" by (simp add: range_order_def)
  have "AfterFind_loop vs Map.empty k = ms k" for k
  proof (cases "find (\<lambda>m. Method m = k) (rev vs)")
    case None
    then have no: "\<forall>v\<in>set vs. Method v \<noteq> k" by (auto simp: find_None_iff)
    have "k \<notin> set ks"
    proof
      assume "k \<in> set ks"
      then obtain i where i: "i < length ks" "ks ! i = k" by (auto simp: in_set_conv_nth)
      with at have "ms k = Some (Ptr (vs ! i))" by auto
      with keyed have "Method (vs ! i) = k" by auto
      moreover from i len have "vs ! i \<in> set vs" by simp
      ultimately show False using no by blast
    qed
    with dom have "ms k = None" by auto
    with None show ?thesis by (simp add: AfterFind_loop_lookup)
  next
    case (Some v)
    then have v: "Method v = k" "v \<in> set vs" by (auto dest: find_Some_set)
    then obtain i where i: "i < length vs" "vs ! i = v" by (auto simp: in_set_conv_nth)
    with at len have e: "ms (ks ! i) = Some (Ptr v)" by auto
    with keyed have "Method v = ks ! i" by auto
    with v e have "ms k = Some (Ptr v)" by simp
    with Some show ?thesis by (simp add: AfterFind_loop_lookup)
  qed
  then have "AfterFind_loop vs Map.empty = ms" by (rule ext)
  with ret ms show ?thesis by simp
qed

subsection \<open>Round trip\<close>

text \<open>
  Claim C4, as the code has it. Take a \<open>Methods\<close> mapping that is not nil, whose
  entries are not nil and are each filed under their own \<open>Method\<close>. Whatever the
  number of entries (zero included) and whatever the order in which the runtime
  visits them, \<^verbatim>\<open>BeforeSave\<close> followed by \<^verbatim>\<open>AfterFind\<close> returns and gives back a
  mapping equal to the original. \<^verbatim>\<open>AfterFind\<close> on any raw collection files
  under each key the last element tagged with that key: last write wins.
\<close>


theorem Methods_round_trip:
  "(Methods r = Some ms \<and> range_order (Methods r) ks \<and>
    (\<forall>k p. ms k = Some p \<longrightarrow> (\<exists>v. p = Ptr v \<and> Method v = k))
      \<longrightarrow> (\<exists>r'. save_then_find ks r = Inr r' \<and> Methods r' = Methods r)) \<and>
   (\<exists>ms'. Methods (AfterFind (r\<lparr>MethodsRaw := Some raw\<rparr>)) = Some ms' \<and>
      (\<forall>k. ms' k = map_option Ptr (find (\<lambda>m. Method m = k) (rev raw))) \<and>
      (\<forall>xs a ys. raw = xs @ a # ys \<and> (\<forall>y\<in>set ys. Method y \<noteq> Method a)
          \<longrightarrow> ms' (Method a) = Some (Ptr a)))"
proof (intro conjI impI)
  assume "Methods r = Some ms \<and> range_order (Methods r) ks \<and>
    (\<forall>k p. ms k = Some p \<longrightarrow> (\<exists>v. p = Ptr v \<and> Method v = k))"
  then show "\<exists>r'. save_then_find ks r = Inr r' \<and> Methods r' = Methods r"
    using save_then_find_round_trip [of r ms ks] by blast
next
  let ?ms' = "AfterFind_loop raw Map.empty"
  have look: "\<forall>k. ?ms' k = map_option Ptr (find (\<lambda>m. Method m = k) (rev raw))"
    by (simp add: AfterFind_loop_lookup split: option.splits)
  have last: "\<forall>xs a ys. raw = xs @ a # ys \<and> (\<forall>y\<in>set ys. Method y \<noteq> Method a)
          \<longrightarrow> ?ms' (Method a) = Some (Ptr a)"
  proof (intro allI impI)
    fix xs a ys
    assume h: "raw = xs @ a # ys \<and> (\<forall>y\<in>set ys. Method y \<noteq> Method a)"
    then have "find (\<lambda>m. Method m = Method a) (rev ys) = None"
      by (simp add: find_None_iff)
    with h show "?ms' (Method a) = Some (Ptr a)"
      by (simp add: AfterFind_loop_lookup find_snoc find_append_rev)
  qed
  have "Methods (AfterFind (r\<lparr>MethodsRaw := Some raw\<rparr>)) = Some ?ms'"
    by (simp add: AfterFind_def)
  with look last
  show "\<exists>ms'. Methods (AfterFind (r\<lparr>MethodsRaw := Some raw\<rparr>)) = Some ms' \<and>
      (\<forall>k. ms' k = map_option Ptr (find (\<lambda>m. Method m = k) (rev raw))) \<and>
      (\<forall>xs a ys. raw = xs @ a # ys \<and> (\<forall>y\<in>set ys. Method y \<noteq> Method a)
          \<longrightarrow> ms' (Method a) = Some (Ptr a))"
    by blast
qed

text \<open>
  The round trip of a request with two methods, visited in the order \<open>oidc\<close>,
  \<open>password\<close>; and \<^verbatim>\<open>AfterFind\<close> on a raw collection with two elements tagged
  \<open>password\<close>, which keeps the second.
\<close>


lemma two_methods_keyed:
  "\<forall>k p. two_methods k = Some p \<longrightarrow> (\<exists>v. p = Ptr v \<and> Method v = k)"
  by (simp add: two_methods_def password_method_def oidc_method_def)

lemma two_methods_order:
  "range_order (Methods (request_with (Some two_methods))) [''oidc'', ''password'']"
  by (auto simp: range_order_def request_with_def two_methods_def)

theorem Methods_round_trip_witness:
  "range_order (Methods (request_with (Some two_methods))) [''oidc'', ''password''] \<and>
   (\<exists>r'. save_then_find [''oidc'', ''password''] (request_with (Some two_methods)) = Inr r' \<and>
      Methods r' = Some two_methods) \<and>
   (\<exists>ms'. Methods (AfterFind (request_with None\<lparr>MethodsRaw := Some raw_with_duplicate\<rparr>)) = Some ms' \<and>
      ms' ''password'' = Some (Ptr \<lparr>Method = ''password'', Config = ''second password form''\<rparr>) \<and>
      ms' ''oidc'' = Some (Ptr oidc_method) \<and> ms' ''link'' = None)"
proof -
  have m: "Methods (request_with (Some two_methods)) = Some two_methods"
    by (simp add: request_with_def)
  from Methods_round_trip [where r = "request_with (Some two_methods)" and ms = two_methods
      and ks = "[''oidc'', ''password'']"] m two_methods_order two_methods_keyed
  have 1: "\<exists>r'. save_then_find [''oidc'', ''password''] (request_with (Some two_methods)) = Inr r' \<and>
      Methods r' = Some two_methods"
    by simp
  from Methods_round_trip [where r = "request_with None" and raw = raw_with_duplicate]
  obtain ms' where
    ms': "Methods (AfterFind (request_with None\<lparr>MethodsRaw := Some raw_with_duplicate\<rparr>)) = Some ms'"
    and look: "\<forall>k. ms' k = map_option Ptr (find (\<lambda>m. Method m = k) (rev raw_with_duplicate))"
    by blast
  from look have "ms' ''password'' = Some (Ptr \<lparr>Method = ''password'', Config = ''second password form''\<rparr>)"
    "ms' ''oidc'' = Some (Ptr oidc_method)" "ms' ''link'' = None"
    by (simp_all add: raw_with_duplicate_def password_method_def oidc_method_def)
  with ms' 1 two_methods_order show ?thesis by blast
qed

text \<open>
  Claim C4 as it is written speaks of every \<open>Methods\<close> mapping. A mapping with
  the entry of method \<open>oidc\<close> filed under the key \<open>password\<close> comes back with
  that entry filed under \<open>oidc\<close>: the round trip does not restore it.
\<close>


theorem Methods_round_trip_counterexample:
  "range_order (Methods (request_with (Some misfiled_method))) [''password''] \<and>
   save_then_find [''password''] (request_with (Some misfiled_method))
     = Inr (request_with (Some refiled_method)) \<and>
   Methods (request_with (Some refiled_method)) \<noteq> Methods (request_with (Some misfiled_method))"
proof -
  have "refiled_method ''oidc'' \<noteq> misfiled_method ''oidc''"
    by (simp add: refiled_method_def misfiled_method_def)
  then have "refiled_method \<noteq> misfiled_method" by auto
  then show ?thesis
    by (simp add: range_order_def request_with_def misfiled_method_def refiled_method_def
        save_then_find_def BeforeSave_def range_values_def List.map_filter_simps AfterFind_def
        oidc_method_def)
qed

text \<open>
  Two more mappings that do not come back as they were: a nil mapping comes back
  as an empty mapping that is not nil, and a nil entry makes \<^verbatim>\<open>BeforeSave\<close> panic.
\<close>


lemma save_then_find_nil_map:
  "save_then_find ks (request_with None) = Inr (request_with (Some Map.empty))"
  by (simp add: save_then_find_def BeforeSave_def range_values_def AfterFind_def request_with_def)

lemma BeforeSave_nil_entry:
  "BeforeSave [''password''] (request_with (Some nil_method)) = Inl NilPointerDereference"
  by (simp add: BeforeSave_def range_values_def List.map_filter_simps request_with_def nil_method_def)

subsection \<open>Keys of the rebuilt mapping\<close>







subsection \<open>One representation at a time\<close>

text \<open>
  The two models of \<^verbatim>\<open>BeforeSave\<close> tell the same run: one returns exactly when
  the other does, with the same request, and one panics exactly when the other
  does. After a panic the request has \<open>MethodsRaw\<close> made and \<open>Methods\<close> as it
  was.
\<close>

lemma BeforeSave_receiver_loop_Inr:
  "BeforeSave_loop ps raw = Inr raw' \<Longrightarrow>
     BeforeSave_receiver_loop ps (r\<lparr>MethodsRaw := Some raw\<rparr>) = (None, r\<lparr>MethodsRaw := Some raw'\<rparr>)"
proof (induction ps raw rule: BeforeSave_loop.induct)
  case (1 raw)
  then show ?case by simp
next
  case (2 ms raw)
  then show ?case by simp
next
  case (3 m ms raw)
  then show ?case by (simp add: append_raw_def)
qed

lemma BeforeSave_receiver_loop_Inl:
  "BeforeSave_loop ps raw = Inl p \<Longrightarrow>
     fst (BeforeSave_receiver_loop ps (r\<lparr>MethodsRaw := Some raw\<rparr>)) = Some p"
proof (induction ps raw rule: BeforeSave_loop.induct)
  case (1 raw)
  then show ?case by simp
next
  case (2 ms raw)
  then show ?case by simp
next
  case (3 m ms raw)
  then show ?case by (simp add: append_raw_def)
qed

lemma BeforeSave_receiver_loop_keeps:
  "MethodsRaw r \<noteq> None \<Longrightarrow>
     MethodsRaw (snd (BeforeSave_receiver_loop ps r)) \<noteq> None \<and>
     Methods (snd (BeforeSave_receiver_loop ps r)) = Methods r"
proof (induction ps r rule: BeforeSave_receiver_loop.induct)
  case (3 m ms r)
  then show ?case by (simp add: append_raw_def)
qed simp_all

lemma BeforeSave_receiver_returns:
  "BeforeSave ks r = Inr r' \<longleftrightarrow> BeforeSave_receiver ks r = (None, r')"
proof (cases "BeforeSave_loop (range_values (Methods r) ks) []")
  case (Inl p)
  from BeforeSave_receiver_loop_Inl [OF this, of r] Inl show ?thesis
    by (auto simp: BeforeSave_def BeforeSave_receiver_def split: prod.splits option.splits)
next
  case (Inr raw)
  from BeforeSave_receiver_loop_Inr [OF this, of r] Inr show ?thesis
    by (auto simp: BeforeSave_def BeforeSave_receiver_def)
qed

lemma BeforeSave_receiver_panics:
  "BeforeSave ks r = Inl p \<longleftrightarrow> fst (BeforeSave_receiver ks r) = Some p"
proof (cases "BeforeSave_loop (range_values (Methods r) ks) []")
  case (Inl q)
  from BeforeSave_receiver_loop_Inl [OF this, of r] Inl show ?thesis
    by (auto simp: BeforeSave_def BeforeSave_receiver_def split: prod.splits option.splits)
next
  case (Inr raw)
  from BeforeSave_receiver_loop_Inr [OF this, of r] Inr show ?thesis
    by (auto simp: BeforeSave_def BeforeSave_receiver_def)
qed

lemma BeforeSave_receiver_after_panic:
  assumes "fst (BeforeSave_receiver ks r) = Some p"
  shows "MethodsRaw (snd (BeforeSave_receiver ks r)) \<noteq> None \<and>
         Methods (snd (BeforeSave_receiver ks r)) = Methods r"
proof -
  let ?l = "BeforeSave_receiver_loop (range_values (Methods r) ks) (r\<lparr>MethodsRaw := Some []\<rparr>)"
  from assms have "BeforeSave_receiver ks r = (Some p, snd ?l)"
    by (auto simp: BeforeSave_receiver_def split: prod.splits option.splits)
  moreover have "MethodsRaw (snd ?l) \<noteq> None \<and> Methods (snd ?l) = Methods (r\<lparr>MethodsRaw := Some []\<rparr>)"
    by (rule BeforeSave_receiver_loop_keeps) simp
  ultimately show ?thesis by simp
qed

text \<open>
  Claim C6, as the code has it. \<^verbatim>\<open>BeforeSave\<close> returns exactly when no entry it
  visits is a nil pointer, and when it returns \<open>MethodsRaw\<close> is made and
  \<open>Methods\<close> is nil. After \<^verbatim>\<open>AfterFind\<close>, and likewise after \<^verbatim>\<open>AfterCreate\<close> and
  \<^verbatim>\<open>AfterUpdate\<close>, which delegate to it, \<open>Methods\<close> is a mapping that is not nil
  and \<open>MethodsRaw\<close> is nil. So after each hook that returns exactly one of the
  two is populated.
\<close>

theorem hooks_leave_one_representation:
  "(BeforeSave ks r = Inr r' \<longrightarrow> MethodsRaw r' \<noteq> None \<and> Methods r' = None) \<and>
   ((\<exists>r'. BeforeSave ks r = Inr r') \<longleftrightarrow> NilPtr \<notin> set (range_values (Methods r) ks)) \<and>
   (BeforeSave ks r = Inr r' \<longleftrightarrow> BeforeSave_receiver ks r = (None, r')) \<and>
   Methods (AfterFind r) \<noteq> None \<and> MethodsRaw (AfterFind r) = None \<and>
   AfterCreate r = AfterFind r \<and> AfterUpdate r = AfterFind r"
proof (intro conjI impI)
  assume "BeforeSave ks r = Inr r'"
  then show "MethodsRaw r' \<noteq> None" and "Methods r' = None"
    by (auto simp: BeforeSave_def split: sum.splits)
next
  show "(\<exists>r'. BeforeSave ks r = Inr r') \<longleftrightarrow> NilPtr \<notin> set (range_values (Methods r) ks)"
  proof (cases "BeforeSave_loop (range_values (Methods r) ks) []")
    case (Inl p)
    then have "BeforeSave_loop (range_values (Methods r) ks) [] = Inl NilPointerDereference"
      by (cases p) simp
    then have "NilPtr \<in> set (range_values (Methods r) ks)"
      by (simp add: BeforeSave_loop_Inl)
    with Inl show ?thesis by (simp add: BeforeSave_def)
  next
    case (Inr raw)
    then have "BeforeSave_loop (range_values (Methods r) ks) [] \<noteq> Inl NilPointerDereference"
      by simp
    then have "NilPtr \<notin> set (range_values (Methods r) ks)"
      by (simp add: BeforeSave_loop_Inl)
    with Inr show ?thesis by (simp add: BeforeSave_def)
  qed
next
  show "BeforeSave ks r = Inr r' \<longleftrightarrow> BeforeSave_receiver ks r = (None, r')"
    by (rule BeforeSave_receiver_returns)
qed (simp_all add: AfterFind_def AfterCreate_def AfterUpdate_def)

text \<open>
  A request with two methods is saved, then \<^verbatim>\<open>AfterUpdate\<close> runs on what was saved.
\<close>

theorem hooks_leave_one_representation_witness:
  "NilPtr \<notin> set (range_values (Methods (request_with (Some two_methods))) [''password'', ''oidc'']) \<and>
   BeforeSave [''password'', ''oidc''] (request_with (Some two_methods))
     = Inr (request_with None\<lparr>MethodsRaw := Some [password_method, oidc_method]\<rparr>) \<and>
   MethodsRaw (request_with None\<lparr>MethodsRaw := Some [password_method, oidc_method]\<rparr>) \<noteq> None \<and>
   Methods (request_with None\<lparr>MethodsRaw := Some [password_method, oidc_method]\<rparr>) = None \<and>
   Methods (AfterUpdate (request_with None\<lparr>MethodsRaw := Some [password_method, oidc_method]\<rparr>)) \<noteq> None \<and>
   MethodsRaw (AfterUpdate (request_with None\<lparr>MethodsRaw := Some [password_method, oidc_method]\<rparr>)) = None"
proof -
  let ?saved = "request_with None\<lparr>MethodsRaw := Some [password_method, oidc_method]\<rparr>"
  have s: "BeforeSave [''password'', ''oidc''] (request_with (Some two_methods)) = Inr ?saved"
    by (simp add: BeforeSave_def range_values_def List.map_filter_simps request_with_def
        two_methods_def)
  have n: "NilPtr \<notin> set (range_values (Methods (request_with (Some two_methods))) [''password'', ''oidc''])"
    by (simp add: range_values_def List.map_filter_simps request_with_def two_methods_def)
  from hooks_leave_one_representation [where r = "request_with (Some two_methods)"
      and ks = "[''password'', ''oidc'']" and r' = ?saved] s
  have 1: "MethodsRaw ?saved \<noteq> None \<and> Methods ?saved = None" by blast
  from hooks_leave_one_representation [where r = ?saved]
  have 2: "Methods (AfterUpdate ?saved) \<noteq> None \<and> MethodsRaw (AfterUpdate ?saved) = None"
    by simp
  from s n 1 2 show ?thesis by blast
qed

text \<open>
  Claim C6 as it is written speaks of any run of the hooks. On a request whose
  \<open>Methods\<close> holds a nil pointer, \<^verbatim>\<open>BeforeSave\<close> panics at the entry: \<open>MethodsRaw\<close>
  has been made, \<open>Methods\<close> has not been set to nil, and the run leaves the
  request with both populated.
\<close>

theorem hooks_leave_one_representation_counterexample:
  "BeforeSave_receiver [''password''] (request_with (Some nil_method))
     = (Some NilPointerDereference, request_with (Some nil_method)\<lparr>MethodsRaw := Some []\<rparr>) \<and>
   MethodsRaw (request_with (Some nil_method)\<lparr>MethodsRaw := Some []\<rparr>) \<noteq> None \<and>
   Methods (request_with (Some nil_method)\<lparr>MethodsRaw := Some []\<rparr>) \<noteq> None"
  by (simp add: BeforeSave_receiver_def range_values_def List.map_filter_simps request_with_def
      nil_method_def)

section \<open>Properties of the identity manager\<close>

subsection \<open>What each method does, case by case\<close>

text \<open>
  \<^verbatim>\<open>validate\<close> calls the validator once and turns its verdict into the error
  returned. The other lemmas unfold \<^verbatim>\<open>Create\<close>, \<^verbatim>\<open>Update\<close> and \<^verbatim>\<open>UpdateTraits\<close> along
  the same lines: what is returned, what the store holds, which calls were made.
\<close>

lemma validate_unfold:
  "validate m i opt w =
     ((case fst (Validate m i) of
         None \<Rightarrow> None
       | Some err \<Rightarrow>
           if is_jsonschema_ValidationError err \<and> \<not> ExposeValidationErrors opt
           then Some (ErrBadRequest (Error err)) else Some (returned err),
       snd (Validate m i)),
      w\<lparr>calls := calls w @ [ValidateCall i]\<rparr>)"
  by (auto simp add: validate_def Let_def split: prod.splits option.splits)

lemma Create_unfold:
  "Create m ctx i opts w =
     (case fst (Validate m i) of
        Some err \<Rightarrow>
          ((Some (if is_jsonschema_ValidationError err \<and> \<not> ExposeValidationErrors (newManagerOptions opts)
                  then ErrBadRequest (Error err) else returned err), snd (Validate m i)),
           w\<lparr>calls := calls w @ [ValidateCall i]\<rparr>)
      | None \<Rightarrow>
          ((map_option OtherError (fst (CreateIdentity m ctx (snd (Validate m i)) (pool w))), snd (Validate m i)),
           w\<lparr>pool := snd (CreateIdentity m ctx (snd (Validate m i)) (pool w)),
             calls := calls w @ [ValidateCall i, CreateIdentityCall ctx (snd (Validate m i))]\<rparr>))"
  by (simp add: Create_def validate_unfold Let_def split: prod.splits option.splits)

lemma Update_unfold:
  "Update m ctx i opts w =
     (case fst (Validate m i) of
        Some err \<Rightarrow>
          ((Some (if is_jsonschema_ValidationError err \<and> \<not> ExposeValidationErrors (newManagerOptions opts)
                  then ErrBadRequest (Error err) else returned err), snd (Validate m i)),
           w\<lparr>calls := calls w @ [ValidateCall i]\<rparr>)
      | None \<Rightarrow>
          ((map_option OtherError (fst (UpdateIdentity m ctx (snd (Validate m i)) (pool w))), snd (Validate m i)),
           w\<lparr>pool := snd (UpdateIdentity m ctx (snd (Validate m i)) (pool w)),
             calls := calls w @ [ValidateCall i, UpdateIdentityCall ctx (snd (Validate m i))]\<rparr>))"
  by (simp add: Update_def validate_unfold Let_def split: prod.splits option.splits)

lemma UpdateTraits_not_read:
  assumes "GetIdentityConfidential m ctx uid (pool w) = (Inl e, s')"
  shows "UpdateTraits m ctx uid traits opts w =
     ((Some (OtherError e), None),
      w\<lparr>pool := s', calls := calls w @ [GetIdentityConfidentialCall ctx uid]\<rparr>)"
  using assms by (simp add: UpdateTraits_def Let_def)

lemma UpdateTraits_not_validated:
  assumes "GetIdentityConfidential m ctx uid (pool w) = (Inr i0, s')"
      and "Validate m (i0\<lparr>Traits := traits\<rparr>) = (Some err, i1)"
  shows "UpdateTraits m ctx uid traits opts w =
     ((Some (if is_jsonschema_ValidationError err \<and> \<not> ExposeValidationErrors (newManagerOptions opts)
             then ErrBadRequest (Error err) else returned err), Some i1),
      w\<lparr>pool := s',
        calls := calls w @ [GetIdentityConfidentialCall ctx uid, ValidateCall (i0\<lparr>Traits := traits\<rparr>)]\<rparr>)"
  using assms
  by (simp add: UpdateTraits_def validate_unfold Let_def split: prod.splits)

lemma UpdateTraits_validated:
  assumes "GetIdentityConfidential m ctx uid (pool w) = (Inr i0, s')"
      and "Validate m (i0\<lparr>Traits := traits\<rparr>) = (None, i1)"
  shows "UpdateTraits m ctx uid traits opts w =
     (if \<not> AllowWriteProtectedTraits (newManagerOptions opts) \<and>
         (\<not> CredentialsEqual m (Credentials i1) (Credentials i0) \<or>
          addresses_modified (Addresses i0) (Addresses i1))
      then ((Some ErrProtectedFieldModified, Some i0),
            w\<lparr>pool := s',
              calls := calls w @ [GetIdentityConfidentialCall ctx uid, ValidateCall (i0\<lparr>Traits := traits\<rparr>)]\<rparr>)
      else ((map_option OtherError (fst (UpdateIdentity m ctx i1 s')), Some i1),
            w\<lparr>pool := snd (UpdateIdentity m ctx i1 s'),
              calls := calls w @ [GetIdentityConfidentialCall ctx uid, ValidateCall (i0\<lparr>Traits := traits\<rparr>),
                                  UpdateIdentityCall ctx i1]\<rparr>))"
  using assms
  by (simp add: UpdateTraits_def validate_unfold Let_def split: prod.splits)

lemma ErrProtectedFieldModified_not_OtherError:
  "OtherError e \<noteq> ErrProtectedFieldModified"
  by (simp add: ErrProtectedFieldModified_def)

subsection \<open>Options\<close>

text \<open>
  For a list of options made of the two exported option functions, a flag is set
  exactly when its option is in the list. Without options both flags are false.
\<close>

lemma exported_options_differ:
  "ManagerExposeValidationErrors \<noteq> ManagerAllowWriteProtectedTraits"
proof
  assume "ManagerExposeValidationErrors = ManagerAllowWriteProtectedTraits"
  then have "ManagerExposeValidationErrors \<lparr>ExposeValidationErrors = False, AllowWriteProtectedTraits = False\<rparr>
      = ManagerAllowWriteProtectedTraits \<lparr>ExposeValidationErrors = False, AllowWriteProtectedTraits = False\<rparr>"
    by simp
  then show False
    by (simp add: ManagerExposeValidationErrors_def ManagerAllowWriteProtectedTraits_def)
qed

lemma fold_exported_options:
  assumes "set opts \<subseteq> {ManagerExposeValidationErrors, ManagerAllowWriteProtectedTraits}"
  shows "ExposeValidationErrors (fold (\<lambda>f opt. f opt) opts z)
           = (ExposeValidationErrors z \<or> ManagerExposeValidationErrors \<in> set opts) \<and>
         AllowWriteProtectedTraits (fold (\<lambda>f opt. f opt) opts z)
           = (AllowWriteProtectedTraits z \<or> ManagerAllowWriteProtectedTraits \<in> set opts)"
  using assms
proof (induction opts arbitrary: z)
  case Nil
  then show ?case by simp
next
  case (Cons f opts)
  then have f: "f = ManagerExposeValidationErrors \<or> f = ManagerAllowWriteProtectedTraits"
    and rest: "set opts \<subseteq> {ManagerExposeValidationErrors, ManagerAllowWriteProtectedTraits}"
    by auto
  from f show ?case
  proof
    assume "f = ManagerExposeValidationErrors"
    with Cons.IH [OF rest, of "f z"] exported_options_differ show ?thesis
      by (auto simp: ManagerExposeValidationErrors_def)
  next
    assume "f = ManagerAllowWriteProtectedTraits"
    with Cons.IH [OF rest, of "f z"] exported_options_differ show ?thesis
      by (auto simp: ManagerAllowWriteProtectedTraits_def)
  qed
qed

lemma newManagerOptions_exported:
  assumes "set opts \<subseteq> {ManagerExposeValidationErrors, ManagerAllowWriteProtectedTraits}"
  shows "ExposeValidationErrors (newManagerOptions opts) = (ManagerExposeValidationErrors \<in> set opts)"
    and "AllowWriteProtectedTraits (newManagerOptions opts) = (ManagerAllowWriteProtectedTraits \<in> set opts)"
  using fold_exported_options [OF assms] by (simp_all add: newManagerOptions_def)

lemma newManagerOptions_default:
  "newManagerOptions [] = \<lparr>ExposeValidationErrors = False, AllowWriteProtectedTraits = False\<rparr>"
  by (simp add: newManagerOptions_def)

text \<open>
  Runs of the validators on the identity \<open>alice\<close>, used in the examples below.
\<close>

lemma example_read:
  "GetIdentityConfidential (example_manager v) NotDone ''alice-id'' (pool example_world)
     = (Inr alice, pool example_world)"
  by (simp add: example_manager_def example_GetIdentityConfidential_def example_world_def)

lemma deriving_validator_bob:
  "Validate (example_manager deriving_validator) (alice\<lparr>Traits := bob_traits\<rparr>) = (None, alice_as_bob)"
  by (simp add: example_manager_def deriving_validator_def alice_def alice_as_bob_def bob_traits_def)

lemma checking_validator_bob:
  "Validate (example_manager checking_validator) (alice\<lparr>Traits := bob_traits\<rparr>)
     = (None, alice\<lparr>Traits := bob_traits\<rparr>)"
  by (simp add: example_manager_def checking_validator_def bob_traits_def)

lemma checking_validator_rejects:
  "Validate (example_manager checking_validator) alice_without_traits
     = (Some (SchemaViolation ''traits: email is required''), alice_without_traits)"
  by (simp add: example_manager_def checking_validator_def alice_without_traits_def)

lemma alice_without_traits_eq: "alice\<lparr>Traits := ''''\<rparr> = alice_without_traits"
  by (simp add: alice_def alice_without_traits_def)

subsection \<open>The guard of UpdateTraits\<close>

text \<open>
  Claim C1. Take a call of \<^verbatim>\<open>UpdateTraits\<close> whose confidential read returns an
  identity and whose traits pass validation. It returns
  \<^verbatim>\<open>ErrProtectedFieldModified\<close> if and only if \<^verbatim>\<open>AllowWriteProtectedTraits\<close> is not
  set and the credentials or the addresses of the working identity differ, under
  the guard's two comparisons, from the snapshot taken at the read. When it
  returns that error, the working identity is the snapshot (old traits
  included), the store is as the read left it, and the only calls made are the
  read and the validation: no update. For options taken from the exported option
  functions, the flag is set exactly when \<^verbatim>\<open>ManagerAllowWriteProtectedTraits\<close> was
  passed.
\<close>

theorem UpdateTraits_protected_field_guard:
  assumes read: "GetIdentityConfidential m ctx uid (pool w) = (Inr original, s')"
      and valid: "Validate m (original\<lparr>Traits := traits\<rparr>) = (None, identity')"
  shows "(fst (fst (UpdateTraits m ctx uid traits opts w)) = Some ErrProtectedFieldModified \<longleftrightarrow>
            \<not> AllowWriteProtectedTraits (newManagerOptions opts) \<and>
            (\<not> CredentialsEqual m (Credentials identity') (Credentials original) \<or>
             addresses_modified (Addresses original) (Addresses identity'))) \<and>
         (fst (fst (UpdateTraits m ctx uid traits opts w)) = Some ErrProtectedFieldModified \<longrightarrow>
            snd (fst (UpdateTraits m ctx uid traits opts w)) = Some original \<and>
            pool (snd (UpdateTraits m ctx uid traits opts w)) = s' \<and>
            calls (snd (UpdateTraits m ctx uid traits opts w))
              = calls w @ [GetIdentityConfidentialCall ctx uid,
                           ValidateCall (original\<lparr>Traits := traits\<rparr>)]) \<and>
         (set opts \<subseteq> {ManagerExposeValidationErrors, ManagerAllowWriteProtectedTraits} \<longrightarrow>
            AllowWriteProtectedTraits (newManagerOptions opts)
              = (ManagerAllowWriteProtectedTraits \<in> set opts))"
  using newManagerOptions_exported(2) [of opts]
  by (simp add: UpdateTraits_validated [OF read valid] ErrProtectedFieldModified_not_OtherError)

text \<open>
  A validator that derives the password identifier from the traits: new traits
  for \<open>alice\<close> change her credentials, the guard fires, and she is restored.
  With \<^verbatim>\<open>ManagerAllowWriteProtectedTraits\<close> the guard does not fire.
\<close>

theorem UpdateTraits_protected_field_guard_witness:
  "GetIdentityConfidential (example_manager deriving_validator) NotDone ''alice-id'' (pool example_world)
     = (Inr alice, pool example_world) \<and>
   Validate (example_manager deriving_validator) (alice\<lparr>Traits := bob_traits\<rparr>) = (None, alice_as_bob) \<and>
   fst (fst (UpdateTraits (example_manager deriving_validator) NotDone ''alice-id'' bob_traits []
               example_world)) = Some ErrProtectedFieldModified \<and>
   snd (fst (UpdateTraits (example_manager deriving_validator) NotDone ''alice-id'' bob_traits []
               example_world)) = Some alice \<and>
   pool (snd (UpdateTraits (example_manager deriving_validator) NotDone ''alice-id'' bob_traits []
               example_world)) = pool example_world \<and>
   calls (snd (UpdateTraits (example_manager deriving_validator) NotDone ''alice-id'' bob_traits []
               example_world))
     = [GetIdentityConfidentialCall NotDone ''alice-id'', ValidateCall (alice\<lparr>Traits := bob_traits\<rparr>)] \<and>
   fst (fst (UpdateTraits (example_manager deriving_validator) NotDone ''alice-id'' bob_traits
               [ManagerAllowWriteProtectedTraits] example_world)) \<noteq> Some ErrProtectedFieldModified"
proof -
  let ?m = "example_manager deriving_validator"
  note t = UpdateTraits_protected_field_guard [OF example_read [of deriving_validator]
      deriving_validator_bob]
  have differ: "\<not> CredentialsEqual ?m (Credentials alice_as_bob) (Credentials alice)"
    by (simp add: example_manager_def alice_as_bob_def alice_def)
  have plain: "\<not> AllowWriteProtectedTraits (newManagerOptions [])"
    by (simp add: newManagerOptions_def)
  have allowed: "AllowWriteProtectedTraits (newManagerOptions [ManagerAllowWriteProtectedTraits])"
    by (simp add: newManagerOptions_def ManagerAllowWriteProtectedTraits_def)
  from t [of "[]", THEN conjunct1] differ plain
  have fired: "fst (fst (UpdateTraits ?m NotDone ''alice-id'' bob_traits [] example_world))
      = Some ErrProtectedFieldModified"
    by simp
  from t [of "[]", THEN conjunct2, THEN conjunct1] fired
  have restored: "snd (fst (UpdateTraits ?m NotDone ''alice-id'' bob_traits [] example_world)) = Some alice \<and>
      pool (snd (UpdateTraits ?m NotDone ''alice-id'' bob_traits [] example_world)) = pool example_world \<and>
      calls (snd (UpdateTraits ?m NotDone ''alice-id'' bob_traits [] example_world))
        = [GetIdentityConfidentialCall NotDone ''alice-id'', ValidateCall (alice\<lparr>Traits := bob_traits\<rparr>)]"
    by (simp add: example_world_def)
  from t [of "[ManagerAllowWriteProtectedTraits]", THEN conjunct1] allowed
  have passed: "fst (fst (UpdateTraits ?m NotDone ''alice-id'' bob_traits
      [ManagerAllowWriteProtectedTraits] example_world)) \<noteq> Some ErrProtectedFieldModified"
    by simp
  from example_read [of deriving_validator] deriving_validator_bob fired restored passed
  show ?thesis by (intro conjI) simp_all
qed

text \<open>
  Claim C3. The address test of the guard fires exactly when the two
  collections differ and their lengths do not add up to zero. Two collections
  differ with lengths adding up to zero exactly when one is nil and the other is
  empty; for these the test does not fire. In a call of \<^verbatim>\<open>UpdateTraits\<close> without
  \<^verbatim>\<open>AllowWriteProtectedTraits\<close> that reads an identity, validates it, and finds
  the credentials equal, \<^verbatim>\<open>ErrProtectedFieldModified\<close> is returned exactly in
  every other case of difference.
\<close>

theorem addresses_guard_nil_and_empty:
  "(addresses_modified a b \<longleftrightarrow> a \<noteq> b \<and> len a + len b \<noteq> 0) \<and>
   (a \<noteq> b \<and> len a + len b = 0 \<longleftrightarrow> (a = None \<and> b = Some []) \<or> (a = Some [] \<and> b = None)) \<and>
   \<not> addresses_modified None (Some []) \<and> \<not> addresses_modified (Some []) None \<and>
   (GetIdentityConfidential m ctx uid (pool w) = (Inr original, s') \<and>
    Validate m (original\<lparr>Traits := traits\<rparr>) = (None, identity') \<and>
    \<not> AllowWriteProtectedTraits (newManagerOptions opts) \<and>
    CredentialsEqual m (Credentials identity') (Credentials original)
      \<longrightarrow> (fst (fst (UpdateTraits m ctx uid traits opts w)) = Some ErrProtectedFieldModified
             \<longleftrightarrow> Addresses original \<noteq> Addresses identity' \<and>
                 len (Addresses original) + len (Addresses identity') \<noteq> 0))"
proof (intro conjI impI)
  show "addresses_modified a b \<longleftrightarrow> a \<noteq> b \<and> len a + len b \<noteq> 0"
    by (simp add: addresses_modified_def)
  show "a \<noteq> b \<and> len a + len b = 0 \<longleftrightarrow> (a = None \<and> b = Some []) \<or> (a = Some [] \<and> b = None)"
    by (cases a; cases b) (auto simp: len_def)
  show "\<not> addresses_modified None (Some [])" and "\<not> addresses_modified (Some []) None"
    by (simp_all add: addresses_modified_def len_def)
next
  assume h: "GetIdentityConfidential m ctx uid (pool w) = (Inr original, s') \<and>
    Validate m (original\<lparr>Traits := traits\<rparr>) = (None, identity') \<and>
    \<not> AllowWriteProtectedTraits (newManagerOptions opts) \<and>
    CredentialsEqual m (Credentials identity') (Credentials original)"
  then have read: "GetIdentityConfidential m ctx uid (pool w) = (Inr original, s')"
    and valid: "Validate m (original\<lparr>Traits := traits\<rparr>) = (None, identity')"
    by simp_all
  from h show "fst (fst (UpdateTraits m ctx uid traits opts w)) = Some ErrProtectedFieldModified
      \<longleftrightarrow> Addresses original \<noteq> Addresses identity' \<and>
          len (Addresses original) + len (Addresses identity') \<noteq> 0"
    by (simp add: UpdateTraits_validated [OF read valid] ErrProtectedFieldModified_not_OtherError
        addresses_modified_def)
qed

text \<open>
  \<open>alice\<close> has a nil address collection. A validator that leaves her an empty
  collection does not trip the guard; one that leaves her one address does.
\<close>

theorem addresses_guard_nil_and_empty_witness:
  "Addresses alice \<noteq> Some [] \<and> len (Addresses alice) + len (Some []) = 0 \<and>
   fst (fst (UpdateTraits (example_manager (address_setting_validator (Some []))) NotDone ''alice-id''
               bob_traits [] example_world)) \<noteq> Some ErrProtectedFieldModified \<and>
   Addresses alice \<noteq> Some [alice_address] \<and>
   len (Addresses alice) + len (Some [alice_address]) \<noteq> 0 \<and>
   fst (fst (UpdateTraits (example_manager (address_setting_validator (Some [alice_address]))) NotDone
               ''alice-id'' bob_traits [] example_world)) = Some ErrProtectedFieldModified"
proof -
  let ?m = "\<lambda>as. example_manager (address_setting_validator as)"
  have v: "Validate (?m as) (alice\<lparr>Traits := bob_traits\<rparr>)
      = (None, alice\<lparr>Traits := bob_traits, Addresses := as\<rparr>)" for as
    by (simp add: example_manager_def address_setting_validator_def)
  have hyp: "GetIdentityConfidential (?m as) NotDone ''alice-id'' (pool example_world)
      = (Inr alice, pool example_world) \<and>
    Validate (?m as) (alice\<lparr>Traits := bob_traits\<rparr>)
      = (None, alice\<lparr>Traits := bob_traits, Addresses := as\<rparr>) \<and>
    \<not> AllowWriteProtectedTraits (newManagerOptions []) \<and>
    CredentialsEqual (?m as) (Credentials (alice\<lparr>Traits := bob_traits, Addresses := as\<rparr>))
      (Credentials alice)" for as
    using example_read v by (simp add: newManagerOptions_def example_manager_def)
  note t = addresses_guard_nil_and_empty [where m = "?m as" and ctx = NotDone
      and uid = "''alice-id''" and w = example_world and original = alice
      and s' = "pool example_world" and traits = bob_traits and opts = "[]"
      and identity' = "alice\<lparr>Traits := bob_traits, Addresses := as\<rparr>" for as]
  have g: "fst (fst (UpdateTraits (?m as) NotDone ''alice-id'' bob_traits [] example_world))
        = Some ErrProtectedFieldModified
      \<longleftrightarrow> Addresses alice \<noteq> as \<and> len (Addresses alice) + len as \<noteq> 0" for as
    using t [of as, THEN conjunct2, THEN conjunct2, THEN conjunct2, THEN conjunct2] hyp [of as]
    by simp
  have a: "Addresses alice = None" by (simp add: alice_def)
  from g [of "Some []"] g [of "Some [alice_address]"] a show ?thesis
    by (simp add: len_def)
qed

text \<open>
  Claim C2, as the code has it. Take a call of \<^verbatim>\<open>UpdateTraits\<close> with no option
  whose confidential read returns an identity and whose traits pass validation.
  If validation has left the credentials or the addresses of the working
  identity different (under the guard's comparisons) from those read, the call
  returns \<^verbatim>\<open>ErrProtectedFieldModified\<close> and updates nothing. Otherwise it hands
  the working identity to the store's \<^verbatim>\<open>UpdateIdentity\<close> and returns what that
  returns; the identity handed over has credentials that \<^verbatim>\<open>CredentialsEqual\<close>
  accepts against those read, and addresses that are those read or, like them,
  of length zero. In particular, when validation leaves the identity as it was
  given, \<^verbatim>\<open>CredentialsEqual\<close> accepts the credentials read against themselves,
  and the store's update succeeds, the call succeeds and the identity persisted
  is the one read with only \<open>Traits\<close> replaced.
\<close>

theorem UpdateTraits_default_options:
  assumes read: "GetIdentityConfidential m ctx uid (pool w) = (Inr original, s')"
      and valid: "Validate m (original\<lparr>Traits := traits\<rparr>) = (None, identity')"
  shows "(\<not> CredentialsEqual m (Credentials identity') (Credentials original) \<or>
          addresses_modified (Addresses original) (Addresses identity') \<longrightarrow>
            UpdateTraits m ctx uid traits [] w =
              ((Some ErrProtectedFieldModified, Some original),
               w\<lparr>pool := s',
                 calls := calls w @ [GetIdentityConfidentialCall ctx uid,
                                     ValidateCall (original\<lparr>Traits := traits\<rparr>)]\<rparr>)) \<and>
         (CredentialsEqual m (Credentials identity') (Credentials original) \<and>
          \<not> addresses_modified (Addresses original) (Addresses identity') \<longrightarrow>
            UpdateTraits m ctx uid traits [] w =
              ((map_option OtherError (fst (UpdateIdentity m ctx identity' s')), Some identity'),
               w\<lparr>pool := snd (UpdateIdentity m ctx identity' s'),
                 calls := calls w @ [GetIdentityConfidentialCall ctx uid,
                                     ValidateCall (original\<lparr>Traits := traits\<rparr>),
                                     UpdateIdentityCall ctx identity']\<rparr>) \<and>
            (Addresses identity' = Addresses original \<or>
             len (Addresses original) + len (Addresses identity') = 0)) \<and>
         (identity' = original\<lparr>Traits := traits\<rparr> \<and>
          CredentialsEqual m (Credentials original) (Credentials original) \<and>
          UpdateIdentity m ctx (original\<lparr>Traits := traits\<rparr>) s' = (None, s'') \<longrightarrow>
            UpdateTraits m ctx uid traits [] w =
              ((None, Some (original\<lparr>Traits := traits\<rparr>)),
               w\<lparr>pool := s'',
                 calls := calls w @ [GetIdentityConfidentialCall ctx uid,
                                     ValidateCall (original\<lparr>Traits := traits\<rparr>),
                                     UpdateIdentityCall ctx (original\<lparr>Traits := traits\<rparr>)]\<rparr>))"
proof -
  have plain: "\<not> AllowWriteProtectedTraits (newManagerOptions [])"
    by (simp add: newManagerOptions_def)
  note u = UpdateTraits_validated [OF read valid, of "[]"]
  show ?thesis
  proof (intro conjI impI)
    assume "\<not> CredentialsEqual m (Credentials identity') (Credentials original) \<or>
          addresses_modified (Addresses original) (Addresses identity')"
    with u plain show "UpdateTraits m ctx uid traits [] w =
              ((Some ErrProtectedFieldModified, Some original),
               w\<lparr>pool := s',
                 calls := calls w @ [GetIdentityConfidentialCall ctx uid,
                                     ValidateCall (original\<lparr>Traits := traits\<rparr>)]\<rparr>)"
      by simp
  next
    assume h: "CredentialsEqual m (Credentials identity') (Credentials original) \<and>
          \<not> addresses_modified (Addresses original) (Addresses identity')"
    with u show "UpdateTraits m ctx uid traits [] w =
              ((map_option OtherError (fst (UpdateIdentity m ctx identity' s')), Some identity'),
               w\<lparr>pool := snd (UpdateIdentity m ctx identity' s'),
                 calls := calls w @ [GetIdentityConfidentialCall ctx uid,
                                     ValidateCall (original\<lparr>Traits := traits\<rparr>),
                                     UpdateIdentityCall ctx identity']\<rparr>)"
      by simp
    from h show "Addresses identity' = Addresses original \<or>
             len (Addresses original) + len (Addresses identity') = 0"
      by (auto simp: addresses_modified_def)
  next
    assume h: "identity' = original\<lparr>Traits := traits\<rparr> \<and>
          CredentialsEqual m (Credentials original) (Credentials original) \<and>
          UpdateIdentity m ctx (original\<lparr>Traits := traits\<rparr>) s' = (None, s'')"
    then have "\<not> addresses_modified (Addresses original) (Addresses identity')"
      by (simp add: addresses_modified_def)
    with u h show "UpdateTraits m ctx uid traits [] w =
              ((None, Some (original\<lparr>Traits := traits\<rparr>)),
               w\<lparr>pool := s'',
                 calls := calls w @ [GetIdentityConfidentialCall ctx uid,
                                     ValidateCall (original\<lparr>Traits := traits\<rparr>),
                                     UpdateIdentityCall ctx (original\<lparr>Traits := traits\<rparr>)]\<rparr>)"
      by simp
  qed
qed

text \<open>
  With a validator that only checks, new traits for \<open>alice\<close> are persisted and
  nothing else changes. With the validator that derives the password identifier
  from the traits, the same call is refused.
\<close>

theorem UpdateTraits_default_options_witness:
  "GetIdentityConfidential (example_manager checking_validator) NotDone ''alice-id'' (pool example_world)
     = (Inr alice, pool example_world) \<and>
   Validate (example_manager checking_validator) (alice\<lparr>Traits := bob_traits\<rparr>)
     = (None, alice\<lparr>Traits := bob_traits\<rparr>) \<and>
   UpdateTraits (example_manager checking_validator) NotDone ''alice-id'' bob_traits [] example_world
     = ((None, Some (alice\<lparr>Traits := bob_traits\<rparr>)),
        \<lparr>pool = ([(''alice-id'', alice\<lparr>Traits := bob_traits\<rparr>), (''alice-id'', alice)], []),
         calls = [GetIdentityConfidentialCall NotDone ''alice-id'',
                  ValidateCall (alice\<lparr>Traits := bob_traits\<rparr>),
                  UpdateIdentityCall NotDone (alice\<lparr>Traits := bob_traits\<rparr>)]\<rparr>) \<and>
   UpdateTraits (example_manager deriving_validator) NotDone ''alice-id'' bob_traits [] example_world
     = ((Some ErrProtectedFieldModified, Some alice),
        example_world\<lparr>calls := [GetIdentityConfidentialCall NotDone ''alice-id'',
                                  ValidateCall (alice\<lparr>Traits := bob_traits\<rparr>)]\<rparr>)"
proof -
  let ?m = "example_manager checking_validator"
  let ?d = "example_manager deriving_validator"
  have refl: "CredentialsEqual ?m (Credentials alice) (Credentials alice)"
    by (simp add: example_manager_def)
  have upd: "UpdateIdentity ?m NotDone (alice\<lparr>Traits := bob_traits\<rparr>) (pool example_world)
      = (None, ([(''alice-id'', alice\<lparr>Traits := bob_traits\<rparr>), (''alice-id'', alice)], []))"
    by (simp add: example_manager_def example_UpdateIdentity_def example_world_def alice_def)
  from UpdateTraits_default_options [OF example_read [of checking_validator] checking_validator_bob,
      where s'' = "([(''alice-id'', alice\<lparr>Traits := bob_traits\<rparr>), (''alice-id'', alice)], [])",
      THEN conjunct2, THEN conjunct2] refl upd
  have 1: "UpdateTraits ?m NotDone ''alice-id'' bob_traits [] example_world
     = ((None, Some (alice\<lparr>Traits := bob_traits\<rparr>)),
        \<lparr>pool = ([(''alice-id'', alice\<lparr>Traits := bob_traits\<rparr>), (''alice-id'', alice)], []),
         calls = [GetIdentityConfidentialCall NotDone ''alice-id'',
                  ValidateCall (alice\<lparr>Traits := bob_traits\<rparr>),
                  UpdateIdentityCall NotDone (alice\<lparr>Traits := bob_traits\<rparr>)]\<rparr>)"
    by (simp add: example_world_def)
  have differ: "\<not> CredentialsEqual ?d (Credentials alice_as_bob) (Credentials alice)"
    by (simp add: example_manager_def alice_as_bob_def alice_def)
  from UpdateTraits_default_options [OF example_read [of deriving_validator] deriving_validator_bob,
      THEN conjunct1] differ
  have 2: "UpdateTraits ?d NotDone ''alice-id'' bob_traits [] example_world
     = ((Some ErrProtectedFieldModified, Some alice),
        example_world\<lparr>calls := [GetIdentityConfidentialCall NotDone ''alice-id'',
                                  ValidateCall (alice\<lparr>Traits := bob_traits\<rparr>)]\<rparr>)"
    by (simp add: example_world_def)
  from example_read [of checking_validator] checking_validator_bob 1 2
  show ?thesis by (intro conjI)
qed

text \<open>
  Claim C2 as it is written promises success for every identity in the store
  and all traits that pass validation. Here the identity is in the store, the
  traits pass validation, no option is given, and the call fails with
  \<^verbatim>\<open>ErrProtectedFieldModified\<close>, leaving the store as it was.
\<close>

theorem UpdateTraits_default_options_counterexample:
  "GetIdentityConfidential (example_manager deriving_validator) NotDone ''alice-id'' (pool example_world)
     = (Inr alice, pool example_world) \<and>
   fst (Validate (example_manager deriving_validator) (alice\<lparr>Traits := bob_traits\<rparr>)) = None \<and>
   newManagerOptions [] = \<lparr>ExposeValidationErrors = False, AllowWriteProtectedTraits = False\<rparr> \<and>
   fst (fst (UpdateTraits (example_manager deriving_validator) NotDone ''alice-id'' bob_traits []
               example_world)) = Some ErrProtectedFieldModified \<and>
   pool (snd (UpdateTraits (example_manager deriving_validator) NotDone ''alice-id'' bob_traits []
               example_world)) = pool example_world"
proof -
  let ?d = "example_manager deriving_validator"
  have differ: "\<not> CredentialsEqual ?d (Credentials alice_as_bob) (Credentials alice)"
    by (simp add: example_manager_def alice_as_bob_def alice_def)
  have plain: "newManagerOptions [] = \<lparr>ExposeValidationErrors = False, AllowWriteProtectedTraits = False\<rparr>"
    by (simp add: newManagerOptions_def)
  have run: "UpdateTraits ?d NotDone ''alice-id'' bob_traits [] example_world
     = ((Some ErrProtectedFieldModified, Some alice),
        example_world\<lparr>calls := [GetIdentityConfidentialCall NotDone ''alice-id'',
                                  ValidateCall (alice\<lparr>Traits := bob_traits\<rparr>)]\<rparr>)"
  proof -
    have "UpdateTraits ?d NotDone ''alice-id'' bob_traits [] example_world
       = ((Some ErrProtectedFieldModified, Some alice),
          example_world\<lparr>pool := pool example_world,
            calls := calls example_world @ [GetIdentityConfidentialCall NotDone ''alice-id'',
                                  ValidateCall (alice\<lparr>Traits := bob_traits\<rparr>)]\<rparr>)"
      using differ plain
      by (simp add: UpdateTraits_validated [OF example_read [of deriving_validator]
            deriving_validator_bob])
    then show ?thesis by (simp add: example_world_def)
  qed
  from example_read [of deriving_validator] deriving_validator_bob plain run
  show ?thesis by simp
qed

subsection \<open>Validation failures\<close>

text \<open>
  Claim C5. When the validator reports a schema validation failure, \<^verbatim>\<open>Create\<close>
  and \<^verbatim>\<open>Update\<close> return at once: a bad-request error with the text of the
  failure when \<^verbatim>\<open>ExposeValidationErrors\<close> is not set, the validation failure
  itself when it is. The store is untouched and the only call made is the
  validation. \<^verbatim>\<open>UpdateTraits\<close>, once its read has returned an identity, does the
  same: the store is as the read left it and the calls made are the read and the
  validation. For options taken from the exported option functions, the flag is
  set exactly when \<^verbatim>\<open>ManagerExposeValidationErrors\<close> was passed.
\<close>

theorem validation_failure_returned_before_any_write:
  "(fst (Validate m i) = Some (SchemaViolation msg) \<longrightarrow>
      Create m ctx i opts w =
        ((Some (if ExposeValidationErrors (newManagerOptions opts)
                then JsonSchemaValidationError msg else ErrBadRequest msg), snd (Validate m i)),
         w\<lparr>calls := calls w @ [ValidateCall i]\<rparr>) \<and>
      Update m ctx i opts w =
        ((Some (if ExposeValidationErrors (newManagerOptions opts)
                then JsonSchemaValidationError msg else ErrBadRequest msg), snd (Validate m i)),
         w\<lparr>calls := calls w @ [ValidateCall i]\<rparr>)) \<and>
   (GetIdentityConfidential m ctx uid (pool w) = (Inr identity, s') \<and>
    fst (Validate m (identity\<lparr>Traits := traits\<rparr>)) = Some (SchemaViolation msg) \<longrightarrow>
      UpdateTraits m ctx uid traits opts w =
        ((Some (if ExposeValidationErrors (newManagerOptions opts)
                then JsonSchemaValidationError msg else ErrBadRequest msg),
          Some (snd (Validate m (identity\<lparr>Traits := traits\<rparr>)))),
         w\<lparr>pool := s',
           calls := calls w @ [GetIdentityConfidentialCall ctx uid,
                               ValidateCall (identity\<lparr>Traits := traits\<rparr>)]\<rparr>)) \<and>
   (set opts \<subseteq> {ManagerExposeValidationErrors, ManagerAllowWriteProtectedTraits} \<longrightarrow>
      ExposeValidationErrors (newManagerOptions opts)
        = (ManagerExposeValidationErrors \<in> set opts))"
proof (intro conjI impI)
  assume "fst (Validate m i) = Some (SchemaViolation msg)"
  then show "Create m ctx i opts w =
        ((Some (if ExposeValidationErrors (newManagerOptions opts)
                then JsonSchemaValidationError msg else ErrBadRequest msg), snd (Validate m i)),
         w\<lparr>calls := calls w @ [ValidateCall i]\<rparr>)"
    and "Update m ctx i opts w =
        ((Some (if ExposeValidationErrors (newManagerOptions opts)
                then JsonSchemaValidationError msg else ErrBadRequest msg), snd (Validate m i)),
         w\<lparr>calls := calls w @ [ValidateCall i]\<rparr>)"
    by (simp_all add: Create_unfold Update_unfold)
next
  assume h: "GetIdentityConfidential m ctx uid (pool w) = (Inr identity, s') \<and>
    fst (Validate m (identity\<lparr>Traits := traits\<rparr>)) = Some (SchemaViolation msg)"
  then have read: "GetIdentityConfidential m ctx uid (pool w) = (Inr identity, s')"
    and v: "Validate m (identity\<lparr>Traits := traits\<rparr>)
        = (Some (SchemaViolation msg), snd (Validate m (identity\<lparr>Traits := traits\<rparr>)))"
    by (simp_all add: prod_eq_iff)
  show "UpdateTraits m ctx uid traits opts w =
        ((Some (if ExposeValidationErrors (newManagerOptions opts)
                then JsonSchemaValidationError msg else ErrBadRequest msg),
          Some (snd (Validate m (identity\<lparr>Traits := traits\<rparr>)))),
         w\<lparr>pool := s',
           calls := calls w @ [GetIdentityConfidentialCall ctx uid,
                               ValidateCall (identity\<lparr>Traits := traits\<rparr>)]\<rparr>)"
    by (simp add: UpdateTraits_not_validated [OF read v])
next
  assume "set opts \<subseteq> {ManagerExposeValidationErrors, ManagerAllowWriteProtectedTraits}"
  then show "ExposeValidationErrors (newManagerOptions opts)
        = (ManagerExposeValidationErrors \<in> set opts)"
    by (rule newManagerOptions_exported(1))
qed

text \<open>
  \<open>alice\<close> without traits is rejected by the checking validator: \<^verbatim>\<open>Create\<close>
  without options, \<^verbatim>\<open>Update\<close> with \<^verbatim>\<open>ManagerExposeValidationErrors\<close>, and
  \<^verbatim>\<open>UpdateTraits\<close> without options.
\<close>

theorem validation_failure_returned_before_any_write_witness:
  "fst (Validate (example_manager checking_validator) alice_without_traits)
     = Some (SchemaViolation ''traits: email is required'') \<and>
   Create (example_manager checking_validator) NotDone alice_without_traits [] example_world
     = ((Some (ErrBadRequest ''traits: email is required''), alice_without_traits),
        example_world\<lparr>calls := [ValidateCall alice_without_traits]\<rparr>) \<and>
   Update (example_manager checking_validator) NotDone alice_without_traits
       [ManagerExposeValidationErrors] example_world
     = ((Some (JsonSchemaValidationError ''traits: email is required''), alice_without_traits),
        example_world\<lparr>calls := [ValidateCall alice_without_traits]\<rparr>) \<and>
   UpdateTraits (example_manager checking_validator) NotDone ''alice-id'' '''' [] example_world
     = ((Some (ErrBadRequest ''traits: email is required''), Some alice_without_traits),
        example_world\<lparr>calls := [GetIdentityConfidentialCall NotDone ''alice-id'',
                                  ValidateCall alice_without_traits]\<rparr>)"
proof -
  let ?m = "example_manager checking_validator"
  have v: "fst (Validate ?m alice_without_traits) = Some (SchemaViolation ''traits: email is required'')"
    and sv: "snd (Validate ?m alice_without_traits) = alice_without_traits"
    by (simp_all add: checking_validator_rejects)
  have plain: "\<not> ExposeValidationErrors (newManagerOptions [])"
    by (simp add: newManagerOptions_def)
  have exposed: "ExposeValidationErrors (newManagerOptions [ManagerExposeValidationErrors])"
    by (simp add: newManagerOptions_def ManagerExposeValidationErrors_def)
  have c0: "calls example_world = []" and p0: "example_world\<lparr>pool := pool example_world\<rparr> = example_world"
    by (simp_all add: example_world_def)
  from validation_failure_returned_before_any_write [where m = ?m and i = alice_without_traits
      and msg = "''traits: email is required''" and ctx = NotDone and opts = "[]"
      and w = example_world, THEN conjunct1] v sv plain c0
  have 1: "Create ?m NotDone alice_without_traits [] example_world
     = ((Some (ErrBadRequest ''traits: email is required''), alice_without_traits),
        example_world\<lparr>calls := [ValidateCall alice_without_traits]\<rparr>)"
    by simp
  from validation_failure_returned_before_any_write [where m = ?m and i = alice_without_traits
      and msg = "''traits: email is required''" and ctx = NotDone
      and opts = "[ManagerExposeValidationErrors]" and w = example_world, THEN conjunct1]
    v sv exposed c0
  have 2: "Update ?m NotDone alice_without_traits [ManagerExposeValidationErrors] example_world
     = ((Some (JsonSchemaValidationError ''traits: email is required''), alice_without_traits),
        example_world\<lparr>calls := [ValidateCall alice_without_traits]\<rparr>)"
    by simp
  from validation_failure_returned_before_any_write [where m = ?m and identity = alice
      and traits = "''''" and uid = "''alice-id''" and s' = "pool example_world"
      and msg = "''traits: email is required''" and ctx = NotDone and opts = "[]"
      and w = example_world, THEN conjunct2, THEN conjunct1]
    example_read [of checking_validator] v sv plain c0 p0
  have 3: "UpdateTraits ?m NotDone ''alice-id'' '''' [] example_world
     = ((Some (ErrBadRequest ''traits: email is required''), Some alice_without_traits),
        example_world\<lparr>calls := [GetIdentityConfidentialCall NotDone ''alice-id'',
                                  ValidateCall alice_without_traits]\<rparr>)"
    by (simp add: alice_without_traits_eq)
  from v 1 2 3 show ?thesis by (intro conjI)
qed

subsection \<open>Refreshing a verification address\<close>

lemma RefreshVerifyAddress_unfold:
  "RefreshVerifyAddress m ctx address (Inr code) now w =
     ((map_option OtherError
         (fst (UpdateVerifiableAddress m ctx
                 (address\<lparr>Code := code,
                    VerifiableAddress.ExpiresAt := now + SelfServiceVerificationLinkLifespan m\<rparr>)
                 (pool w))),
       address\<lparr>Code := code,
         VerifiableAddress.ExpiresAt := now + SelfServiceVerificationLinkLifespan m\<rparr>),
      w\<lparr>pool := snd (UpdateVerifiableAddress m ctx
                 (address\<lparr>Code := code,
                    VerifiableAddress.ExpiresAt := now + SelfServiceVerificationLinkLifespan m\<rparr>)
                 (pool w)),
        calls := calls w @ [UpdateVerifiableAddressCall ctx
                 (address\<lparr>Code := code,
                    VerifiableAddress.ExpiresAt := now + SelfServiceVerificationLinkLifespan m\<rparr>)]\<rparr>)"
  by (simp add: RefreshVerifyAddress_def Let_def split: prod.splits)

lemma RefreshVerifyAddress_no_code:
  "RefreshVerifyAddress m ctx address (Inl err) now w = ((Some (OtherError err), address), w)"
  by (simp add: RefreshVerifyAddress_def)

text \<open>
  Claim C8. When \<^verbatim>\<open>RefreshVerifyAddress\<close> returns no error and the configured
  lifespan is positive: the code generator returned a code and \<open>Code\<close> is that
  code; \<open>ExpiresAt\<close> is the clock reading of the call plus the lifespan, so it
  is after that reading; \<open>Value\<close>, \<open>Via\<close> and \<open>Verified\<close> are as they were;
  the one call made is the store's \<^verbatim>\<open>UpdateVerifiableAddress\<close> on the address so
  changed (no validation, no call on an identity), and it succeeded, giving the
  store its new state.
\<close>

theorem RefreshVerifyAddress_success:
  assumes ok: "fst (fst (RefreshVerifyAddress m ctx address code_result now w)) = None"
      and positive: "0 < SelfServiceVerificationLinkLifespan m"
  shows "code_result = Inr (Code (snd (fst (RefreshVerifyAddress m ctx address code_result now w)))) \<and>
         VerifiableAddress.ExpiresAt (snd (fst (RefreshVerifyAddress m ctx address code_result now w)))
           = now + SelfServiceVerificationLinkLifespan m \<and>
         now < VerifiableAddress.ExpiresAt (snd (fst (RefreshVerifyAddress m ctx address code_result now w))) \<and>
         Value (snd (fst (RefreshVerifyAddress m ctx address code_result now w))) = Value address \<and>
         Via (snd (fst (RefreshVerifyAddress m ctx address code_result now w))) = Via address \<and>
         Verified (snd (fst (RefreshVerifyAddress m ctx address code_result now w))) = Verified address \<and>
         calls (snd (RefreshVerifyAddress m ctx address code_result now w))
           = calls w @ [UpdateVerifiableAddressCall ctx
                          (snd (fst (RefreshVerifyAddress m ctx address code_result now w)))] \<and>
         UpdateVerifiableAddress m ctx
             (snd (fst (RefreshVerifyAddress m ctx address code_result now w))) (pool w)
           = (None, pool (snd (RefreshVerifyAddress m ctx address code_result now w)))"
proof (cases code_result)
  case (Inl err)
  with ok show ?thesis by (simp add: RefreshVerifyAddress_no_code)
next
  case (Inr code)
  with ok positive show ?thesis
    by (simp add: RefreshVerifyAddress_unfold prod_eq_iff)
qed

text \<open>
  A refresh of \<open>alice_address\<close> at time 100 with a lifespan of one hour.
\<close>

theorem RefreshVerifyAddress_success_witness:
  "(0::int) < SelfServiceVerificationLinkLifespan (example_manager checking_validator) \<and>
   RefreshVerifyAddress (example_manager checking_validator) NotDone alice_address (Inr ''new code'')
       100 example_world
     = ((None, refreshed_address),
        \<lparr>pool = ([(''alice-id'', alice)], [refreshed_address]),
         calls = [UpdateVerifiableAddressCall NotDone refreshed_address]\<rparr>) \<and>
   Code refreshed_address = ''new code'' \<and>
   VerifiableAddress.ExpiresAt refreshed_address = 100 + 3600000000000 \<and>
   (100::int) < VerifiableAddress.ExpiresAt refreshed_address \<and>
   Value refreshed_address = Value alice_address \<and> Via refreshed_address = Via alice_address \<and>
   Verified refreshed_address = Verified alice_address"
proof -
  let ?m = "example_manager checking_validator"
  have run: "RefreshVerifyAddress ?m NotDone alice_address (Inr ''new code'') 100 example_world
     = ((None, refreshed_address),
        \<lparr>pool = ([(''alice-id'', alice)], [refreshed_address]),
         calls = [UpdateVerifiableAddressCall NotDone refreshed_address]\<rparr>)"
    by (simp add: RefreshVerifyAddress_unfold example_manager_def example_UpdateVerifiableAddress_def
        example_world_def alice_address_def refreshed_address_def)
  then have ok: "fst (fst (RefreshVerifyAddress ?m NotDone alice_address (Inr ''new code'') 100
      example_world)) = None"
    by simp
  have positive: "0 < SelfServiceVerificationLinkLifespan ?m"
    by (simp add: example_manager_def)
  have life: "SelfServiceVerificationLinkLifespan ?m = 3600000000000"
    by (simp add: example_manager_def)
  from RefreshVerifyAddress_success [OF ok positive] run life positive show ?thesis
    by simp
qed

subsection \<open>A context that is already done\<close>

text \<open>
  Claim C9, as the code has it. No method of the Manager looks at the context:
  each hands it to the store calls it makes. Take a context that is done and a
  store that refuses every call made with it, returning an error and leaving
  its state as it is. Then \<^verbatim>\<open>UpdateTraits\<close> fails with that error at its read,
  before the validator and before any write. \<^verbatim>\<open>RefreshVerifyAddress\<close>, when
  the code generator yields a code, fails with that error and persists nothing,
  after it has put the new code and expiry into the address it was given; when
  the generator fails, it returns the generator's error, sets nothing and makes
  no call. \<^verbatim>\<open>Create\<close> and \<^verbatim>\<open>Update\<close> run the validator first:
  when it accepts they fail with the store's error, when it rejects they return
  the validation error as \<^verbatim>\<open>validate\<close> shapes it. In every case the state of the
  store is unchanged.
\<close>

theorem done_context_is_left_to_the_store:
  assumes ctx_done: "ctx \<noteq> NotDone"
      and create: "\<forall>i s. CreateIdentity m ctx i s = (Some e, s)"
      and update: "\<forall>i s. UpdateIdentity m ctx i s = (Some e, s)"
      and get: "\<forall>u s. GetIdentityConfidential m ctx u s = (Inl e, s)"
      and address: "\<forall>a s. UpdateVerifiableAddress m ctx a s = (Some e, s)"
  shows "UpdateTraits m ctx uid traits opts w =
           ((Some (OtherError e), None), w\<lparr>calls := calls w @ [GetIdentityConfidentialCall ctx uid]\<rparr>) \<and>
         RefreshVerifyAddress m ctx a (Inr code) now w =
           ((Some (OtherError e),
             a\<lparr>Code := code,
               VerifiableAddress.ExpiresAt := now + SelfServiceVerificationLinkLifespan m\<rparr>),
            w\<lparr>calls := calls w @ [UpdateVerifiableAddressCall ctx
                 (a\<lparr>Code := code,
                    VerifiableAddress.ExpiresAt := now + SelfServiceVerificationLinkLifespan m\<rparr>)]\<rparr>) \<and>
         RefreshVerifyAddress m ctx a (Inl generator_error) now w =
           ((Some (OtherError generator_error), a), w) \<and>
         (fst (Validate m i) = None \<longrightarrow>
            Create m ctx i opts w =
              ((Some (OtherError e), snd (Validate m i)),
               w\<lparr>calls := calls w @ [ValidateCall i, CreateIdentityCall ctx (snd (Validate m i))]\<rparr>) \<and>
            Update m ctx i opts w =
              ((Some (OtherError e), snd (Validate m i)),
               w\<lparr>calls := calls w @ [ValidateCall i, UpdateIdentityCall ctx (snd (Validate m i))]\<rparr>)) \<and>
         (fst (Validate m i) = Some err \<longrightarrow>
            Create m ctx i opts w =
              ((Some (if is_jsonschema_ValidationError err \<and>
                         \<not> ExposeValidationErrors (newManagerOptions opts)
                      then ErrBadRequest (Error err) else returned err), snd (Validate m i)),
               w\<lparr>calls := calls w @ [ValidateCall i]\<rparr>) \<and>
            Update m ctx i opts w =
              ((Some (if is_jsonschema_ValidationError err \<and>
                         \<not> ExposeValidationErrors (newManagerOptions opts)
                      then ErrBadRequest (Error err) else returned err), snd (Validate m i)),
               w\<lparr>calls := calls w @ [ValidateCall i]\<rparr>))"
proof (intro conjI impI)
  from get have "GetIdentityConfidential m ctx uid (pool w) = (Inl e, pool w)" by simp
  from UpdateTraits_not_read [OF this]
  show "UpdateTraits m ctx uid traits opts w =
           ((Some (OtherError e), None), w\<lparr>calls := calls w @ [GetIdentityConfidentialCall ctx uid]\<rparr>)"
    by simp
  from address show "RefreshVerifyAddress m ctx a (Inr code) now w =
           ((Some (OtherError e),
             a\<lparr>Code := code,
               VerifiableAddress.ExpiresAt := now + SelfServiceVerificationLinkLifespan m\<rparr>),
            w\<lparr>calls := calls w @ [UpdateVerifiableAddressCall ctx
                 (a\<lparr>Code := code,
                    VerifiableAddress.ExpiresAt := now + SelfServiceVerificationLinkLifespan m\<rparr>)]\<rparr>)"
    by (simp add: RefreshVerifyAddress_unfold)
  show "RefreshVerifyAddress m ctx a (Inl generator_error) now w =
           ((Some (OtherError generator_error), a), w)"
    by (rule RefreshVerifyAddress_no_code)
next
  assume "fst (Validate m i) = None"
  with create update show "Create m ctx i opts w =
              ((Some (OtherError e), snd (Validate m i)),
               w\<lparr>calls := calls w @ [ValidateCall i, CreateIdentityCall ctx (snd (Validate m i))]\<rparr>)"
    and "Update m ctx i opts w =
              ((Some (OtherError e), snd (Validate m i)),
               w\<lparr>calls := calls w @ [ValidateCall i, UpdateIdentityCall ctx (snd (Validate m i))]\<rparr>)"
    by (simp_all add: Create_unfold Update_unfold)
next
  assume "fst (Validate m i) = Some err"
  then show "Create m ctx i opts w =
              ((Some (if is_jsonschema_ValidationError err \<and>
                         \<not> ExposeValidationErrors (newManagerOptions opts)
                      then ErrBadRequest (Error err) else returned err), snd (Validate m i)),
               w\<lparr>calls := calls w @ [ValidateCall i]\<rparr>)"
    and "Update m ctx i opts w =
              ((Some (if is_jsonschema_ValidationError err \<and>
                         \<not> ExposeValidationErrors (newManagerOptions opts)
                      then ErrBadRequest (Error err) else returned err), snd (Validate m i)),
               w\<lparr>calls := calls w @ [ValidateCall i]\<rparr>)"
    by (simp_all add: Create_unfold Update_unfold)
qed

text \<open>
  The four methods on a cancelled context, over the store in memory.
\<close>

lemma example_store_refuses_done:
  assumes "ctx \<noteq> NotDone"
  shows "\<forall>i s. CreateIdentity (example_manager v) ctx i s = (Some ''context done'', s)"
    and "\<forall>i s. UpdateIdentity (example_manager v) ctx i s = (Some ''context done'', s)"
    and "\<forall>u s. GetIdentityConfidential (example_manager v) ctx u s = (Inl ''context done'', s)"
    and "\<forall>a s. UpdateVerifiableAddress (example_manager v) ctx a s = (Some ''context done'', s)"
  using assms
  by (simp_all add: example_manager_def example_CreateIdentity_def example_UpdateIdentity_def
      example_GetIdentityConfidential_def example_UpdateVerifiableAddress_def)

lemma deriving_validator_alice:
  "Validate (example_manager deriving_validator) alice
     = (None, alice\<lparr>Addresses := Some []\<rparr>)"
  by (simp add: example_manager_def deriving_validator_def alice_def)

theorem done_context_is_left_to_the_store_witness:
  "Canceled \<noteq> NotDone \<and>
   UpdateTraits (example_manager checking_validator) Canceled ''alice-id'' bob_traits [] example_world
     = ((Some (OtherError ''context done''), None),
        example_world\<lparr>calls := [GetIdentityConfidentialCall Canceled ''alice-id'']\<rparr>) \<and>
   RefreshVerifyAddress (example_manager checking_validator) Canceled alice_address (Inr ''new code'')
       100 example_world
     = ((Some (OtherError ''context done''), refreshed_address),
        example_world\<lparr>calls := [UpdateVerifiableAddressCall Canceled refreshed_address]\<rparr>) \<and>
   RefreshVerifyAddress (example_manager checking_validator) Canceled alice_address
       (Inl ''no entropy'') 100 example_world
     = ((Some (OtherError ''no entropy''), alice_address), example_world) \<and>
   Create (example_manager deriving_validator) Canceled alice [] example_world
     = ((Some (OtherError ''context done''), alice\<lparr>Addresses := Some []\<rparr>),
        example_world\<lparr>calls := [ValidateCall alice,
                                  CreateIdentityCall Canceled (alice\<lparr>Addresses := Some []\<rparr>)]\<rparr>) \<and>
   Update (example_manager checking_validator) Canceled alice_without_traits [] example_world
     = ((Some (ErrBadRequest ''traits: email is required''), alice_without_traits),
        example_world\<lparr>calls := [ValidateCall alice_without_traits]\<rparr>)"
proof -
  let ?c = "example_manager checking_validator"
  let ?d = "example_manager deriving_validator"
  have ctx_done: "Canceled \<noteq> NotDone" by simp
  note rc = example_store_refuses_done [OF ctx_done, where v = checking_validator]
  note rd = example_store_refuses_done [OF ctx_done, where v = deriving_validator]
  note tc = done_context_is_left_to_the_store [OF ctx_done rc,
      where w = example_world and opts = "[]"]
  note td = done_context_is_left_to_the_store [OF ctx_done rd,
      where w = example_world and opts = "[]"]
  have c0: "calls example_world = []" by (simp add: example_world_def)
  have life: "SelfServiceVerificationLinkLifespan ?c = 3600000000000"
    by (simp add: example_manager_def)
  have plain: "\<not> ExposeValidationErrors (newManagerOptions [])"
    by (simp add: newManagerOptions_def)
  from tc [where uid = "''alice-id''" and traits = bob_traits, THEN conjunct1] c0
  have 1: "UpdateTraits ?c Canceled ''alice-id'' bob_traits [] example_world
     = ((Some (OtherError ''context done''), None),
        example_world\<lparr>calls := [GetIdentityConfidentialCall Canceled ''alice-id'']\<rparr>)"
    by simp
  from tc [where a = alice_address and code = "''new code''" and now = 100, THEN conjunct2, THEN conjunct1] c0 life
  have 2: "RefreshVerifyAddress ?c Canceled alice_address (Inr ''new code'') 100 example_world
     = ((Some (OtherError ''context done''), refreshed_address),
        example_world\<lparr>calls := [UpdateVerifiableAddressCall Canceled refreshed_address]\<rparr>)"
    by (simp add: alice_address_def refreshed_address_def)
  from tc [where a = alice_address and generator_error = "''no entropy''" and now = 100,
      THEN conjunct2, THEN conjunct2, THEN conjunct1]
  have 5: "RefreshVerifyAddress ?c Canceled alice_address (Inl ''no entropy'') 100 example_world
     = ((Some (OtherError ''no entropy''), alice_address), example_world)" .
  from td [where i = alice, THEN conjunct2, THEN conjunct2, THEN conjunct2, THEN conjunct1]
    deriving_validator_alice c0
  have 3: "Create ?d Canceled alice [] example_world
     = ((Some (OtherError ''context done''), alice\<lparr>Addresses := Some []\<rparr>),
        example_world\<lparr>calls := [ValidateCall alice,
                                  CreateIdentityCall Canceled (alice\<lparr>Addresses := Some []\<rparr>)]\<rparr>)"
    by simp
  from tc [where i = alice_without_traits
      and err = "SchemaViolation ''traits: email is required''",
      THEN conjunct2, THEN conjunct2, THEN conjunct2, THEN conjunct2]
    checking_validator_rejects c0 plain
  have 4: "Update ?c Canceled alice_without_traits [] example_world
     = ((Some (ErrBadRequest ''traits: email is required''), alice_without_traits),
        example_world\<lparr>calls := [ValidateCall alice_without_traits]\<rparr>)"
    by simp
  from ctx_done 1 2 5 3 4 show ?thesis by (intro conjI)
qed

text \<open>
  Claim C9 as it is written says that a method called with a context that is
  done fails with a cancellation error before the validator runs and before
  anything is changed. On a cancelled context \<^verbatim>\<open>Create\<close> runs the validator and
  returns its bad-request error, and \<^verbatim>\<open>RefreshVerifyAddress\<close> leaves the address
  it was given with a new code and expiry.
\<close>

theorem done_context_counterexample:
  "Canceled \<noteq> NotDone \<and>
   Create (example_manager checking_validator) Canceled alice_without_traits [] example_world
     = ((Some (ErrBadRequest ''traits: email is required''), alice_without_traits),
        example_world\<lparr>calls := [ValidateCall alice_without_traits]\<rparr>) \<and>
   snd (fst (RefreshVerifyAddress (example_manager checking_validator) Canceled alice_address
               (Inr ''new code'') 100 example_world)) = refreshed_address \<and>
   refreshed_address \<noteq> alice_address"
proof -
  have 1: "Create (example_manager checking_validator) Canceled alice_without_traits [] example_world
     = ((Some (ErrBadRequest ''traits: email is required''), alice_without_traits),
        example_world\<lparr>calls := calls example_world @ [ValidateCall alice_without_traits]\<rparr>)"
    by (simp add: Create_unfold checking_validator_rejects newManagerOptions_def)
  have 2: "snd (fst (RefreshVerifyAddress (example_manager checking_validator) Canceled alice_address
               (Inr ''new code'') 100 example_world)) = refreshed_address"
    by (simp add: RefreshVerifyAddress_unfold example_manager_def alice_address_def
        refreshed_address_def)
  have 3: "refreshed_address \<noteq> alice_address"
    by (simp add: alice_address_def refreshed_address_def)
  from 1 2 3 show ?thesis by (simp add: example_world_def)
qed

end
